theory Spec2Isabelle
  imports Main "HOL-Library.Sublist"
begin

text \<open>
  The driver lists the printers of CUPS and submits jobs by running \<^verbatim>\<open>lpstat\<close>
  and \<^verbatim>\<open>lp\<close> and reading what they print. The definitions below follow its
  functions: the three runners of commands, \<^verbatim>\<open>lp_print\<close> and
  \<^verbatim>\<open>printDirect\<close>, \<^verbatim>\<open>extractPrinters\<close>, and the class \<^verbatim>\<open>Printer\<close>
  with \<^verbatim>\<open>getPrinters\<close> and \<^verbatim>\<open>getPrinter\<close>. What a function does besides
  returning is part of its result: the processes it starts, the state in which a promise
  ends, the directory after the call.
\<close>

section \<open>The string primitives the driver uses\<close>

text \<open>
  A JavaScript string is modelled as a \<^typ>\<open>string\<close>: the list of its code units,
  for texts whose code units are below 256 (the output of \<^verbatim>\<open>lpstat\<close> and
  \<^verbatim>\<open>lp\<close> in the C locale). \<^verbatim>\<open>undefined\<close> is \<^term>\<open>None\<close> of
  an option type.
\<close>

text \<open>\<^verbatim>\<open>s.split(sep)\<close> for a separator that is not empty: the pieces between the
  occurrences of \<open>sep\<close>, found from the left and not overlapping. The accumulator
  holds the current piece, reversed.\<close>

fun split_at :: "string \<Rightarrow> string \<Rightarrow> string \<Rightarrow> string list" where
  "split_at sep acc [] = [rev acc]"
| "split_at sep acc (c # cs) =
     (if prefix sep (c # cs)
      then rev acc # split_at sep [] (drop (length sep - 1) cs)
      else split_at sep (c # acc) cs)"

text \<open>\<^verbatim>\<open>s.split(sep)\<close>; with the empty separator the pieces are the code units.\<close>

definition js_split :: "string \<Rightarrow> string \<Rightarrow> string list" where
  "js_split sep s = (if sep = [] then map (\<lambda>c. [c]) s else split_at sep [] s)"

text \<open>\<^verbatim>\<open>s.includes(t)\<close>: \<open>t\<close> occurs in \<open>s\<close> as a contiguous run.\<close>

fun js_includes :: "string \<Rightarrow> string \<Rightarrow> bool" where
  "js_includes [] t = (t = [])"
| "js_includes (c # cs) t = (prefix t (c # cs) \<or> js_includes cs t)"

text \<open>The white space and line terminators of ECMAScript among the code units below
  256: TAB, LF, VT, FF, CR, SP and NBSP.\<close>

definition is_space :: "char \<Rightarrow> bool" where
  "is_space c = (of_char c \<in> {9, 10, 11, 12, 13, 32, 160 :: nat})"

text \<open>\<^verbatim>\<open>s.trim()\<close>\<close>

definition trim :: "string \<Rightarrow> string" where
  "trim s = rev (dropWhile is_space (rev (dropWhile is_space s)))"

text \<open>\<^verbatim>\<open>xs.join(sep)\<close> on an array of strings.\<close>

fun join :: "string \<Rightarrow> string list \<Rightarrow> string" where
  "join sep [] = []"
| "join sep [x] = x"
| "join sep (x # y # ys) = x @ sep @ join sep (y # ys)"

text \<open>\<^verbatim>\<open>Boolean(s)\<close> for a string, and for a string that may be undefined.\<close>

definition truthy :: "string \<Rightarrow> bool" where
  "truthy s = (s \<noteq> [])"

definition truthy_opt :: "string option \<Rightarrow> bool" where
  "truthy_opt v = (case v of None \<Rightarrow> False | Some s \<Rightarrow> truthy s)"

text \<open>The string a value that may be undefined has in a concatenation
  (\<^verbatim>\<open>name + ': '\<close>) and as the argument of \<^verbatim>\<open>includes\<close>.\<close>

definition js_string :: "string option \<Rightarrow> string" where
  "js_string v = (case v of None \<Rightarrow> ''undefined'' | Some s \<Rightarrow> s)"

text \<open>\<^verbatim>\<open>xs[i]\<close>: undefined out of range.\<close>

definition js_nth :: "'a list \<Rightarrow> nat \<Rightarrow> 'a option" where
  "js_nth xs i = (if i < length xs then Some (xs ! i) else None)"

text \<open>\<^verbatim>\<open>obj[key] = value\<close> on an object with string keys, kept as the list of
  its entries in the order of their insertion.\<close>

fun obj_set :: "(string \<times> string) list \<Rightarrow> string \<Rightarrow> string \<Rightarrow> (string \<times> string) list" where
  "obj_set [] k v = [(k, v)]"
| "obj_set ((k', v') # es) k v = (if k' = k then (k, v) # es else (k', v') # obj_set es k v)"

text \<open>The object literal \<^verbatim>\<open>{ ...base, ...more }\<close>.\<close>

definition spread :: "(string \<times> string) list \<Rightarrow> (string \<times> string) list \<Rightarrow> (string \<times> string) list" where
  "spread base more = foldl (\<lambda>obj (k, v). obj_set obj k v) base more"

section \<open>The printer record extractor\<close>

text \<open>A printer record. The name is \<^verbatim>\<open>words[1]\<close> of a header line, which is
  undefined when the line is the one word \<^verbatim>\<open>printer\<close>; the options are the
  entries of the object in their order.\<close>

record PrinterDetails =
  name :: "string option"
  isDefault :: bool
  options :: "(string \<times> string) list"

text \<open>The five texts of \<^verbatim>\<open>lpstat\<close> that \<^verbatim>\<open>extractPrinters\<close> takes out of its
  argument: the values under the keys \<^verbatim>\<open>printers\<close>, \<^verbatim>\<open>accepting\<close>,
  \<^verbatim>\<open>addresses\<close>, \<^verbatim>\<open>default\<close> and \<^verbatim>\<open>details\<close>.\<close>

record LPSTAT_out =
  stat_printers :: string
  stat_accepting :: string
  stat_addresses :: string
  stat_default :: string
  stat_details :: string

definition lpstat_detail_ki :: "(string \<times> string) list" where
  "lpstat_detail_ki =
     [(''printer-info'', ''Description: ''), (''printer-location'', ''Location: '')]"

text \<open>The loop over \<^verbatim>\<open>lpstat_detail_ki\<close>: one step, for one key and its label.\<close>

definition detail_step :: "string list \<Rightarrow> (string \<times> string) list \<Rightarrow> string \<times> string \<Rightarrow> (string \<times> string) list" where
  "detail_step rows info ki =
     (case ki of (key, label) \<Rightarrow>
        (case find (\<lambda>row. prefix label row) rows of
           None \<Rightarrow> info
         | Some row \<Rightarrow>
             if truthy row then obj_set info key (trim (drop (length label) row)) else info))"

text \<open>The descriptive keys of a printer, from the block of the details text found for
  it (\<^verbatim>\<open>if (details) { ... }\<close>).\<close>

definition detail_info :: "string option \<Rightarrow> (string \<times> string) list" where
  "detail_info block =
     (case block of
        None \<Rightarrow> []
      | Some b \<Rightarrow>
          if truthy b
          then (let rows = filter truthy (map trim (js_split ''\<newline>'' b))
                in foldl (detail_step rows) [] lpstat_detail_ki)
          else [])"

text \<open>The body of the branch \<^verbatim>\<open>if (words[0] === 'printer')\<close>: the record built
  for the name \<^verbatim>\<open>words[1]\<close>.\<close>

definition new_printer :: "LPSTAT_out \<Rightarrow> string option \<Rightarrow> PrinterDetails" where
  "new_printer stats nm =
     (let addressLines = js_split ''\<newline>'' (stat_addresses stats);
          acceptingLines = js_split ''\<newline>'' (stat_accepting stats);
          printerDetails = filter truthy (js_split ''\<newline>printer'' (stat_details stats));
          is_default = js_includes (stat_default stats) (js_string nm);
          socket_line = find (\<lambda>line. js_includes line (js_string nm @ '': '')) addressLines;
          socket = (case socket_line of
                      None \<Rightarrow> []
                    | Some l \<Rightarrow>
                        if truthy l then js_split '' '' l ! (length (js_split '' '' l) - 1) else []);
          acceptingRequests =
            (if truthy_opt (find (\<lambda>line. js_includes line (js_string nm @ '' accepting''))
                             acceptingLines)
             then ''true'' else ''false'');
          block = find (\<lambda>line. js_includes line (js_string nm @ '' '')) printerDetails;
          info = detail_info block
      in \<lparr> name = nm, isDefault = is_default,
           options = spread [(''printer-is-accepting-jobs'', acceptingRequests),
                             (''device-uri'', socket)] info \<rparr>)"

text \<open>One turn of the loop over the lines of the printers text: the state is
  \<^verbatim>\<open>currentPrinter\<close> and \<^verbatim>\<open>result\<close>.\<close>

definition line_step :: "LPSTAT_out \<Rightarrow> PrinterDetails option \<times> PrinterDetails list \<Rightarrow> string \<Rightarrow> PrinterDetails option \<times> PrinterDetails list" where
  "line_step stats st line =
     (case st of (currentPrinter, result) \<Rightarrow>
        (let ws = js_split '' '' line;
             cur = (if js_nth ws 0 = Some ''printer''
                    then Some (new_printer stats (js_nth ws 1))
                    else currentPrinter)
         in (cur, (case cur of None \<Rightarrow> result | Some p \<Rightarrow> result @ [p]))))"

definition extractPrinters :: "LPSTAT_out \<Rightarrow> PrinterDetails list" where
  "extractPrinters stats =
     snd (foldl (line_step stats) (None, []) (js_split ''\<newline>'' (stat_printers stats)))"

section \<open>Numbers and values\<close>

text \<open>The decimal digits of a natural number, and \<^verbatim>\<open>n + ''\<close> for a number that
  is an integer (of fewer than 22 digits, which JavaScript writes in full).\<close>

fun show_nat :: "nat \<Rightarrow> string" where
  "show_nat n =
     (if n < 10 then [char_of (48 + n)]
      else show_nat (n div 10) @ [char_of (48 + n mod 10)])"

definition show_int :: "int \<Rightarrow> string" where
  "show_int i = (if i < 0 then CHR ''-'' # show_nat (nat (- i)) else show_nat (nat i))"

text \<open>A field that holds a number or a string (\<^verbatim>\<open>quality\<close>,
  \<^verbatim>\<open>orientation\<close>): its truth value and its text in a template.\<close>

datatype scalar = Num int | Str string

fun scalar_truthy :: "scalar \<Rightarrow> bool" where
  "scalar_truthy (Num n) = (n \<noteq> 0)"
| "scalar_truthy (Str s) = truthy s"

fun scalar_string :: "scalar \<Rightarrow> string" where
  "scalar_string (Num n) = show_int n"
| "scalar_string (Str s) = s"

text \<open>\<^verbatim>\<open>s.toLowerCase()\<close> on code units below 256: the letters A to Z and the
  capital letters of Latin-1.\<close>

definition lower_char :: "char \<Rightarrow> char" where
  "lower_char c =
     (let n = (of_char c :: nat)
      in if (65 \<le> n \<and> n \<le> 90) \<or> (192 \<le> n \<and> n \<le> 214) \<or> (216 \<le> n \<and> n \<le> 222)
         then char_of (n + 32) else c)"

definition toLowerCase :: "string \<Rightarrow> string" where
  "toLowerCase s = map lower_char s"

text \<open>The number that unary plus reads from a string. A text of decimal digits up to
  \<open>2 ^ 53\<close> is read exactly, and the empty text as 0; \<open>NumberOf t\<close> is the number
  ECMAScript reads from any other trimmed text \<open>t\<close> (\<^verbatim>\<open>NaN\<close> where \<open>t\<close> is
  no numeric literal), which is not computed here.\<close>

datatype number = Integer nat | NumberOf string

definition is_digit :: "char \<Rightarrow> bool" where
  "is_digit c = (48 \<le> (of_char c :: nat) \<and> (of_char c :: nat) \<le> 57)"

definition decimal :: "string \<Rightarrow> nat" where
  "decimal s = foldl (\<lambda>n c. 10 * n + (of_char c - 48)) 0 s"

definition to_number :: "string \<Rightarrow> number" where
  "to_number s =
     (let t = trim s
      in if t = [] then Integer 0
         else if list_all is_digit t \<and> decimal t \<le> 2 ^ 53 then Integer (decimal t)
         else NumberOf t)"

datatype js_value = VNumber number | VString string

section \<open>The process runner\<close>

text \<open>The data of a job: a string, or a \<^verbatim>\<open>Buffer\<close> with its bytes. A buffer is
  true even when it is empty.\<close>

datatype payload = Text string | Buffer string

definition payload_truthy :: "payload option \<Rightarrow> bool" where
  "payload_truthy d = (case d of None \<Rightarrow> False | Some (Text s) \<Rightarrow> truthy s | Some (Buffer b) \<Rightarrow> True)"

text \<open>One call of \<^verbatim>\<open>spawn\<close> or \<^verbatim>\<open>spawnSync\<close>: the command, its arguments
  and what is piped into it.\<close>

record invocation =
  command :: string
  arguments :: "string list"
  input :: "payload option"

text \<open>What \<^verbatim>\<open>spawnSync\<close> returns.\<close>

record sync_child =
  status :: "int option"
  stdout :: "string option"
  stderr :: "string option"

text \<open>What becomes of a child of \<^verbatim>\<open>spawn\<close>: the call throws (the text of what
  it throws), or the child closes with an exit code, having written to its standard
  output and standard error, or the child cannot be started (the command is not found,
  say) and emits \<^verbatim>\<open>error\<close> with that error, after which it never emits
  \<^verbatim>\<open>close\<close>. The runners register a listener for \<^verbatim>\<open>close\<close> only, so in the
  last case their promise is neither resolved nor rejected; the exception that an
  \<^verbatim>\<open>error\<close> event without a listener raises in the process is not part of what a
  function leaves here.\<close>

datatype child = Throws string | Close "int option" string string | ErrorEvent string

text \<open>The operating system, as the driver meets it.\<close>

record runner =
  spawnSync :: "invocation \<Rightarrow> sync_child"
  spawn :: "invocation \<Rightarrow> child"

text \<open>What a promise is rejected with, or what is thrown: an \<^verbatim>\<open>Error\<close> with its
  message, or a string. \<open>SnapshotError e\<close> is an error of a class of its own that holds
  the error \<open>e\<close> as its cause: the driver has no such class and builds no such
  value, it is here for what the specification says of a failed snapshot.\<close>

datatype reason = Error string | Message string | SnapshotError reason

text \<open>The state a promise ends in.\<close>

datatype 'a promise = Pending | Resolved 'a | Rejected reason

definition e_msg :: "string \<Rightarrow> string list \<Rightarrow> string" where
  "e_msg cmd as = ''Failed to run command '' @ [CHR 0x27] @ cmd @ '' '' @ join '' '' as @ [CHR 0x27]"

definition child_promise :: "string \<Rightarrow> string list \<Rightarrow> child \<Rightarrow> string promise" where
  "child_promise cmd as c =
     (case c of
        Throws err \<Rightarrow> Rejected (Message (e_msg cmd as @ '' - '' @ err))
      | Close code out err \<Rightarrow>
          if code = Some 0 then Resolved out
          else Rejected (Message (e_msg cmd as @ '' - '' @ err))
      | ErrorEvent err \<Rightarrow> Pending)"

definition runCommand :: "runner \<Rightarrow> string \<Rightarrow> string list \<Rightarrow> string promise" where
  "runCommand os cmd as =
     child_promise cmd as (spawn os \<lparr> command = cmd, arguments = as, input = None \<rparr>)"

definition runCommandPipe :: "runner \<Rightarrow> string \<Rightarrow> payload \<Rightarrow> string list \<Rightarrow> string promise" where
  "runCommandPipe os cmd inp as =
     child_promise cmd as (spawn os \<lparr> command = cmd, arguments = as, input = Some inp \<rparr>)"

definition show_status :: "int option \<Rightarrow> string" where
  "show_status st = (case st of None \<Rightarrow> ''null'' | Some n \<Rightarrow> show_int n)"

definition runCommandSync :: "runner \<Rightarrow> string \<Rightarrow> string list \<Rightarrow> reason + string" where
  "runCommandSync os cmd as =
     (let child = spawnSync os \<lparr> command = cmd, arguments = as, input = None \<rparr>;
          out = (case stdout child of None \<Rightarrow> [] | Some s \<Rightarrow> s);
          err = (case stderr child of None \<Rightarrow> [] | Some s \<Rightarrow> s)
      in if status child = Some 0 then Inr out
         else Inl (Error (e_msg cmd as @ '' - '' @
                (if truthy err then err
                 else ''Unknown error code '' @ [CHR 0x27] @ show_status (status child) @ [CHR 0x27]))))"

section \<open>The job submission translator\<close>

text \<open>The options of \<^verbatim>\<open>lp_print\<close>. A field that is not given is \<^term>\<open>None\<close>;
  the numbers (\<^verbatim>\<open>port\<close>, \<^verbatim>\<open>copies\<close>, a numeric \<^verbatim>\<open>quality\<close> or
  \<^verbatim>\<open>orientation\<close>) are integers. The field \<^verbatim>\<open>type\<close> is \<open>doc_type\<close> and
  the field \<^verbatim>\<open>file\<close> is \<open>file_path\<close>.\<close>

record PrintOptions =
  printer :: "string option"
  doc_type :: "string option"
  data :: "payload option"
  file_path :: "string option"
  host :: "string option"
  port :: "int option"
  username :: "string option"
  encryption :: "bool option"
  title :: "string option"
  quality :: "scalar option"
  orientation :: "scalar option"
  copies :: "int option"
  args :: "string list option"

text \<open>\<^verbatim>\<open>if (cond) args.push(...xs)\<close>\<close>

definition push_if :: "bool \<Rightarrow> string list \<Rightarrow> string list \<Rightarrow> string list" where
  "push_if cond xs as = (if cond then as @ xs else as)"

definition num_truthy :: "int option \<Rightarrow> bool" where
  "num_truthy v = (case v of None \<Rightarrow> False | Some n \<Rightarrow> n \<noteq> 0)"

definition scalar_opt_truthy :: "scalar option \<Rightarrow> bool" where
  "scalar_opt_truthy v = (case v of None \<Rightarrow> False | Some x \<Rightarrow> scalar_truthy x)"

text \<open>The constant \<^verbatim>\<open>type\<close>: \<^verbatim>\<open>((options.type || 'RAW') + '').toLowerCase()\<close>\<close>

definition type_of_options :: "PrintOptions \<Rightarrow> string" where
  "type_of_options opts =
     toLowerCase (case doc_type opts of None \<Rightarrow> ''RAW'' | Some t \<Rightarrow> if truthy t then t else ''RAW'')"

text \<open>The constant \<^verbatim>\<open>host\<close>: the host, and the port after a colon when there is
  one.\<close>

definition host_of_options :: "PrintOptions \<Rightarrow> string" where
  "host_of_options opts =
     (case host opts of
        None \<Rightarrow> []
      | Some h \<Rightarrow>
          if truthy h
          then join '':'' (map scalar_string (filter scalar_truthy
                 [Str h, (case port opts of None \<Rightarrow> Str [] | Some n \<Rightarrow> if n \<noteq> 0 then Num n else Str [])]))
          else [])"

text \<open>The pushes of \<^verbatim>\<open>lp_print\<close> after its two checks, in their order, on the
  array \<open>as\<close>.\<close>

definition push_flags :: "PrintOptions \<Rightarrow> string list \<Rightarrow> string list" where
  "push_flags opts as =
     (let a1 = push_if (\<not> truthy_opt (file_path opts)) [''-o'', type_of_options opts] as;
          a2 = push_if (num_truthy (copies opts)) [''-n'', show_int (case copies opts of None \<Rightarrow> 0 | Some n \<Rightarrow> n)] a1;
          a3 = push_if (truthy_opt (printer opts)) [''-d'', js_string (printer opts)] a2;
          a4 = push_if (truthy (host_of_options opts)) [''-h'', host_of_options opts] a3;
          a5 = push_if (truthy_opt (username opts)) [''-U'', js_string (username opts)] a4;
          a6 = push_if (truthy_opt (title opts)) [''-T'', js_string (title opts)] a5;
          a7 = push_if (scalar_opt_truthy (quality opts))
                 [''-o'', ''print-quality='' @ (case quality opts of None \<Rightarrow> [] | Some q \<Rightarrow> scalar_string q)] a6;
          a8 = push_if (scalar_opt_truthy (orientation opts))
                 [''-o'', ''orientation-requested='' @ (case orientation opts of None \<Rightarrow> [] | Some q \<Rightarrow> scalar_string q)] a7;
          a9 = push_if (encryption opts = Some True) [''-E''] a8
      in a9)"

text \<open>The function \<^verbatim>\<open>callback\<close>: the job id read from the text the command
  printed.\<close>

definition callback :: "string \<Rightarrow> js_value" where
  "callback response =
     (let split = filter truthy (js_split '' '' response);
          jobIdLong = (if length split > 3 then split ! (length split - 3) else response);
          pieces = js_split ''-'' jobIdLong
      in VNumber (to_number (pieces ! (length pieces - 1))))"

text \<open>\<^verbatim>\<open>p.then(callback)\<close> with \<^verbatim>\<open>callback\<close> resolving the promise that
  \<^verbatim>\<open>lp_print\<close> returns: nothing is registered for a rejection of \<open>p\<close>, which
  leaves the returned promise as it is.\<close>

definition then_callback :: "string promise \<Rightarrow> js_value promise" where
  "then_callback p = (case p of Resolved response \<Rightarrow> Resolved (callback response) | _ \<Rightarrow> Pending)"

text \<open>What a call of \<^verbatim>\<open>lp_print\<close> leaves: the state in which the promise it
  returns ends, the processes it spawned, and the array \<^verbatim>\<open>options.args\<close> of the
  caller as it is after the call.\<close>

record lp_outcome =
  settled :: "js_value promise"
  spawned :: "invocation list"
  caller_args :: "string list option"

definition lp_print :: "runner \<Rightarrow> PrintOptions \<Rightarrow> lp_outcome" where
  "lp_print os opts =
     (if \<not> truthy_opt (printer opts)
      then \<lparr> settled = Rejected (Error ''No printer provided''), spawned = [],
             caller_args = args opts \<rparr>
      else if \<not> payload_truthy (data opts) \<and> \<not> truthy_opt (file_path opts)
      then \<lparr> settled = Rejected (Error ''No data or file provided''), spawned = [],
             caller_args = args opts \<rparr>
      else
        (let as = push_flags opts (case args opts of None \<Rightarrow> [] | Some a \<Rightarrow> a);
             shared = (\<lambda>final. case args opts of None \<Rightarrow> None | Some a \<Rightarrow> Some final)
         in if truthy_opt (file_path opts)
            then (let as' = as @ [''--'', js_string (file_path opts)]
                  in \<lparr> settled = then_callback (runCommand os ''lp'' as'),
                       spawned = [\<lparr> command = ''lp'', arguments = as', input = None \<rparr>],
                       caller_args = shared as' \<rparr>)
            else (case data opts of
                    Some d \<Rightarrow>
                      if payload_truthy (Some d)
                      then \<lparr> settled = then_callback (runCommandPipe os ''lp'' d as),
                             spawned = [\<lparr> command = ''lp'', arguments = as, input = Some d \<rparr>],
                             caller_args = shared as \<rparr>
                      else \<lparr> settled = Rejected (Error ''No data or file provided''),
                             spawned = [], caller_args = shared as \<rparr>
                  | None \<Rightarrow>
                      \<lparr> settled = Rejected (Error ''No data or file provided''),
                        spawned = [], caller_args = shared as \<rparr>)))"

text \<open>The options of \<^verbatim>\<open>printDirect\<close>: the callbacks are kept as whether they
  are there.\<close>

record PrintDirectOptions =
  pd_data :: "payload option"
  pd_printer :: "string option"
  pd_type :: "string option"
  pd_options :: "(string \<times> string) list option"
  pd_success :: bool
  pd_error :: bool

text \<open>What a call of \<^verbatim>\<open>printDirect\<close> comes to: it throws, or it calls the error
  callback, or the success callback, or neither.\<close>

datatype direct_outcome =
  Thrown reason | ErrorCalled reason | SuccessCalled js_value | NothingCalled

text \<open>The array \<^verbatim>\<open>args\<close> that \<^verbatim>\<open>printDirect\<close> builds.\<close>

definition direct_args :: "PrintDirectOptions \<Rightarrow> string list" where
  "direct_args opts =
     push_if (truthy_opt (pd_type opts)) [''-o'', js_string (pd_type opts)] []
     @ (case pd_options opts of
          None \<Rightarrow> []
        | Some obj \<Rightarrow> concat (map (\<lambda>(k, v). [''-o'', k @ ''='' @ v]) obj))"

definition direct_request :: "PrintDirectOptions \<Rightarrow> PrintOptions" where
  "direct_request opts =
     \<lparr> printer = pd_printer opts, doc_type = None, data = pd_data opts, file_path = None, host = None,
       port = None, username = None, encryption = None, title = None, quality = None,
       orientation = None, copies = None, args = Some (direct_args opts) \<rparr>"

definition printDirect :: "runner \<Rightarrow> PrintDirectOptions \<Rightarrow> direct_outcome \<times> invocation list" where
  "printDirect os opts =
     (if \<not> pd_error opts then (Thrown (Error ''No error callback provided''), [])
      else if \<not> pd_success opts then (ErrorCalled (Error ''No success callback provided''), [])
      else if \<not> payload_truthy (pd_data opts) then (ErrorCalled (Error ''No data provided''), [])
      else if \<not> truthy_opt (pd_printer opts) then (ErrorCalled (Error ''No printer provided''), [])
      else (let r = lp_print os (direct_request opts)
            in ((case settled r of
                   Resolved v \<Rightarrow> SuccessCalled v
                 | Rejected e \<Rightarrow> ErrorCalled e
                 | Pending \<Rightarrow> NothingCalled), spawned r)))"

section \<open>The printer directory\<close>

record Printer =
  printers :: "PrinterDetails list"
  printersLoaded :: bool
  refreshInterval :: "nat option"

text \<open>The constructor.\<close>

definition new_Printer :: Printer where
  "new_Printer = \<lparr> printers = [], printersLoaded = False, refreshInterval = None \<rparr>"

text \<open>\<^verbatim>\<open>autoRefresh(interval)\<close>: the timer is kept as its period in milliseconds.\<close>

definition autoRefresh :: "nat option \<Rightarrow> Printer \<Rightarrow> Printer" where
  "autoRefresh interval this =
     this\<lparr> refreshInterval :=
       Some (case interval of None \<Rightarrow> 15000 | Some n \<Rightarrow> if n \<noteq> 0 then n else 15000) \<rparr>"

definition lpstat_commands :: "(string \<times> string list) list" where
  "lpstat_commands =
     [(''printers'', [''lpstat'', ''-p'']),
      (''accepting'', [''lpstat'', ''-a'']),
      (''addresses'', [''lpstat'', ''-s'']),
      (''default'', [''lpstat'', ''-d'']),
      (''details'', [''lpstat'', ''-l'', ''-p''])]"

definition lpstat_keys :: "string list" where
  "lpstat_keys = map fst lpstat_commands"

text \<open>A command of the table as the call it makes: the first word is the command.\<close>

definition invocation_of :: "string list \<Rightarrow> invocation" where
  "invocation_of ws = \<lparr> command = hd ws, arguments = tl ws, input = None \<rparr>"

text \<open>The object \<^verbatim>\<open>stats\<close> once every key of \<^verbatim>\<open>lpstat_keys\<close> has its
  response, the responses being in the order of the keys.\<close>

definition stats_of :: "string list \<Rightarrow> LPSTAT_out" where
  "stats_of responses =
     \<lparr> stat_printers = responses ! 0, stat_accepting = responses ! 1,
       stat_addresses = responses ! 2, stat_default = responses ! 3,
       stat_details = responses ! 4 \<rparr>"

text \<open>The \<^verbatim>\<open>forEach\<close> of the first load: the commands run one after the other,
  and the first that fails throws, which ends the loop. The result holds the responses
  so far and the calls made.\<close>

fun run_each :: "runner \<Rightarrow> string list list \<Rightarrow> (reason + string list) \<times> invocation list" where
  "run_each os [] = (Inr [], [])"
| "run_each os (ws # rest) =
     (case runCommandSync os (hd ws) (tl ws) of
        Inl e \<Rightarrow> (Inl e, [invocation_of ws])
      | Inr response \<Rightarrow>
          (case run_each os rest of
             (Inl e, calls) \<Rightarrow> (Inl e, invocation_of ws # calls)
           | (Inr responses, calls) \<Rightarrow> (Inr (response # responses), invocation_of ws # calls)))"

text \<open>\<^verbatim>\<open>Promise.all\<close> of promises that have ended: the values when all are
  resolved, the first rejection otherwise.\<close>

fun promise_all :: "'a promise list \<Rightarrow> 'a list promise" where
  "promise_all [] = Resolved []"
| "promise_all (Rejected e # ps) = Rejected e"
| "promise_all (Pending # ps) = (case promise_all ps of Rejected e \<Rightarrow> Rejected e | _ \<Rightarrow> Pending)"
| "promise_all (Resolved v # ps) =
     (case promise_all ps of
        Resolved vs \<Rightarrow> Resolved (v # vs)
      | Rejected e \<Rightarrow> Rejected e
      | Pending \<Rightarrow> Pending)"

text \<open>What a call of \<^verbatim>\<open>getPrinters\<close> leaves: what it returns or throws, the
  directory after the call, the processes it started, and the promises of the refresh
  it left running (none after a first load).\<close>

record load_outcome =
  returned :: "reason + PrinterDetails list"
  directory :: Printer
  calls :: "invocation list"
  refresh :: "string promise list"

definition getPrinters :: "runner \<Rightarrow> Printer \<Rightarrow> load_outcome" where
  "getPrinters os this =
     (if \<not> printersLoaded this
      then (case run_each os (map snd lpstat_commands) of
              (Inl e, cs) \<Rightarrow>
                \<lparr> returned = Inl e, directory = this, calls = cs, refresh = [] \<rparr>
            | (Inr responses, cs) \<Rightarrow>
                (let this' = this\<lparr> printers := extractPrinters (stats_of responses),
                                   printersLoaded := True \<rparr>
                 in \<lparr> returned = Inr (printers this'), directory = this', calls = cs,
                      refresh = [] \<rparr>))
      else \<lparr> returned = Inr (printers this), directory = this,
             calls = map (invocation_of \<circ> snd) lpstat_commands,
             refresh = map (\<lambda>(key, ws). runCommand os (hd ws) (tl ws)) lpstat_commands \<rparr>)"

text \<open>The function given to \<^verbatim>\<open>then\<close> in \<^verbatim>\<open>getPrinters\<close>, run on the
  directory as it is when the promises of the refresh have ended: it runs when all are
  resolved, and not at all otherwise.\<close>

definition refresh_done :: "string promise list \<Rightarrow> Printer \<Rightarrow> Printer" where
  "refresh_done ps this =
     (case promise_all ps of
        Resolved responses \<Rightarrow>
          this\<lparr> printers := extractPrinters (stats_of responses), printersLoaded := True \<rparr>
      | _ \<Rightarrow> this)"

text \<open>What a call of \<^verbatim>\<open>getPrinter\<close> leaves.\<close>

record lookup_outcome =
  found :: "reason + PrinterDetails option"
  directory_after :: Printer
  calls_made :: "invocation list"
  refresh_left :: "string promise list"

definition getPrinter :: "runner \<Rightarrow> Printer \<Rightarrow> string \<Rightarrow> lookup_outcome" where
  "getPrinter os this printerName =
     (if \<not> printersLoaded this \<or> refreshInterval this = None
      then (let r = getPrinters os this
            in (case returned r of
                  Inl e \<Rightarrow>
                    \<lparr> found = Inl e, directory_after = directory r, calls_made = calls r,
                      refresh_left = refresh r \<rparr>
                | Inr _ \<Rightarrow>
                    \<lparr> found = Inr (find (\<lambda>p. name p = Some printerName) (printers (directory r))),
                      directory_after = directory r, calls_made = calls r,
                      refresh_left = refresh r \<rparr>))
      else \<lparr> found = Inr (find (\<lambda>p. name p = Some printerName) (printers this)),
             directory_after = this, calls_made = [], refresh_left = [] \<rparr>)"

section \<open>The specification's notions\<close>

text \<open>The pieces of a text between the occurrences of one character.\<close>

fun pieces :: "char \<Rightarrow> string \<Rightarrow> string list" where
  "pieces c [] = [[]]"
| "pieces c (x # xs) =
     (if x = c then [] # pieces c xs
      else (case pieces c xs of [] \<Rightarrow> [[x]] | p # ps \<Rightarrow> (x # p) # ps))"

text \<open>The part of a text after its last occurrence of a character (the whole text when
  the character is not in it).\<close>

definition after_last :: "char \<Rightarrow> string \<Rightarrow> string" where
  "after_last c s = rev (takeWhile (\<lambda>x. x \<noteq> c) (rev s))"

text \<open>A header line of the printers text: its first piece between spaces is the word
  \<^verbatim>\<open>printer\<close>.\<close>

definition header_line :: "string \<Rightarrow> bool" where
  "header_line line = (js_nth (js_split '' '' line) 0 = Some ''printer'')"

text \<open>The tokens of a text: its runs of characters that are not white space.\<close>

fun ws_tokens_from :: "string \<Rightarrow> string \<Rightarrow> string list" where
  "ws_tokens_from cur [] = (if cur = [] then [] else [rev cur])"
| "ws_tokens_from cur (c # cs) =
     (if is_space c then (if cur = [] then [] else [rev cur]) @ ws_tokens_from [] cs
      else ws_tokens_from (c # cur) cs)"

definition ws_tokens :: "string \<Rightarrow> string list" where
  "ws_tokens s = ws_tokens_from [] s"

text \<open>The job handle as claim C3 words it: with more than three tokens, the number at
  the end of the third token from the last; otherwise the trimmed response itself.\<close>

definition claimed_handle :: "string \<Rightarrow> js_value" where
  "claimed_handle response =
     (let tokens = ws_tokens response
      in if length tokens > 3
         then VNumber (to_number (after_last (CHR ''-'') (rev tokens ! 2)))
         else VString (trim response))"

text \<open>A child that did not end with the exit code 0.\<close>

definition failed :: "child \<Rightarrow> bool" where
  "failed c =
     (case c of
        Throws err \<Rightarrow> True
      | Close code out err \<Rightarrow> code \<noteq> Some 0
      | ErrorEvent err \<Rightarrow> True)"

text \<open>A child whose failure reaches the runner: the call of \<^verbatim>\<open>spawn\<close> throws, or
  the child closes with an exit code other than 0.\<close>

definition rejecting :: "child \<Rightarrow> bool" where
  "rejecting c =
     (case c of
        Throws err \<Rightarrow> True
      | Close code out err \<Rightarrow> code \<noteq> Some 0
      | ErrorEvent err \<Rightarrow> False)"

text \<open>The failure of a snapshot as claim C6 words it, for the error \<open>e\<close> of the
  query that failed.\<close>

definition claimed_snapshot_failure :: "reason \<Rightarrow> reason" where
  "claimed_snapshot_failure e = SnapshotError e"

text \<open>The device address as claim C9 words it: the last of the tokens between white
  space of the first line of the addresses text that contains the name followed by a
  colon and a space, and the empty text when there is no such line.\<close>

definition claimed_address :: "string \<Rightarrow> string \<Rightarrow> string" where
  "claimed_address text nm =
     (case filter (\<lambda>l. sublist (nm @ '': '') l) (pieces (CHR ''\<newline>'') text) of
        [] \<Rightarrow> []
      | l # _ \<Rightarrow> (case ws_tokens l of [] \<Rightarrow> [] | t # ts \<Rightarrow> last (t # ts)))"

section \<open>Sample requests and runs\<close>

text \<open>The request \<^verbatim>\<open>{}\<close>, to which the fields of a sample are added.\<close>

definition no_options :: PrintOptions where
  "no_options =
     \<lparr> printer = None, doc_type = None, data = None, file_path = None, host = None,
       port = None, username = None, encryption = None, title = None, quality = None,
       orientation = None, copies = None, args = None \<rparr>"

text \<open>What \<^verbatim>\<open>lpstat\<close> prints for one printer \<open>A\<close>, by its arguments.\<close>

definition lpstat_text :: "string list \<Rightarrow> string" where
  "lpstat_text as =
     (if as = [''-p''] then ''printer A is idle.\<newline>''
      else if as = [''-a''] then ''A accepting requests\<newline>''
      else if as = [''-s''] then ''device for A: socket://10.0.0.1\<newline>''
      else if as = [''-d''] then ''system default destination: A\<newline>''
      else ''printer A is idle.\<newline>'')"

text \<open>A system on which every command succeeds, and one on which every command exits
  with the code 1.\<close>

definition working_os :: runner where
  "working_os =
     \<lparr> spawnSync = (\<lambda>i. \<lparr> status = Some 0, stdout = Some (lpstat_text (arguments i)),
                              stderr = None \<rparr>),
       spawn = (\<lambda>i. if command i = ''lp''
                     then Close (Some 0) ''request id is P1-5 (1 file(s))\<newline>'' []
                     else Close (Some 0) (lpstat_text (arguments i)) []) \<rparr>"

definition broken_os :: runner where
  "broken_os =
     \<lparr> spawnSync = (\<lambda>i. \<lparr> status = Some 1, stdout = Some [],
                              stderr = Some ''lpstat: Scheduler is not running.\<newline>'' \<rparr>),
       spawn = (\<lambda>i. Close (Some 1) [] ''lp: Error - scheduler not responding.\<newline>'') \<rparr>"

text \<open>The five texts for two printers, of which \<open>B\<close> is in the printers text
  only.\<close>

definition sample_stats :: LPSTAT_out where
  "sample_stats =
     \<lparr> stat_printers = ''printer A is idle.\<newline>printer B is idle.\<newline>'',
       stat_accepting = ''A accepting requests\<newline>'',
       stat_addresses = ''device for A: socket://10.0.0.1\<newline>'',
       stat_default = ''system default destination: A\<newline>'',
       stat_details = ''printer A is idle.\<newline>'' \<rparr>"

text \<open>The five texts for one printer, with a space at the end of its line in the
  addresses text.\<close>

definition trailing_stats :: LPSTAT_out where
  "trailing_stats =
     \<lparr> stat_printers = ''printer A is idle.\<newline>'',
       stat_accepting = ''A accepting requests\<newline>'',
       stat_addresses = ''device for A: usb://x \<newline>'',
       stat_default = ''system default destination: A\<newline>'',
       stat_details = ''printer A is idle.\<newline>'' \<rparr>"

text \<open>A loaded directory that holds one printer and has no timer.\<close>

definition loaded_Printer :: Printer where
  "loaded_Printer =
     \<lparr> printers =
         [\<lparr> name = Some ''A'', isDefault = True,
             options = [(''printer-is-accepting-jobs'', ''true''),
                        (''device-uri'', ''socket://10.0.0.1'')] \<rparr>],
       printersLoaded = True, refreshInterval = None \<rparr>"

section \<open>Facts about the string primitives\<close>

lemma pieces_not_Nil: "pieces c s \<noteq> []"
  by (induction s) (auto split: list.splits)

lemma split_at_pieces:
  "split_at [c] acc s = (rev acc @ hd (pieces c s)) # tl (pieces c s)"
proof (induction s arbitrary: acc)
  case Nil
  show ?case by simp
next
  case (Cons x xs)
  show ?case
  proof (cases "x = c")
    case True
    then show ?thesis using Cons.IH [of "[]"] pieces_not_Nil [of c xs] by simp
  next
    case False
    then show ?thesis using Cons.IH [of "x # acc"] pieces_not_Nil [of c xs]
      by (simp split: list.splits)
  qed
qed

lemma js_split_pieces: "js_split [c] s = pieces c s"
  using split_at_pieces [of c "[]" s] pieces_not_Nil [of c s]
  by (simp add: js_split_def)

lemma pieces_absent: "c \<notin> set s \<Longrightarrow> pieces c s = [s]"
  by (induction s) auto

lemma pieces_present: "c \<in> set s \<Longrightarrow> tl (pieces c s) \<noteq> []"
  by (induction s) (auto simp: pieces_not_Nil pieces_absent split: list.splits)

lemma last_pieces: "last (pieces c s) = rev (takeWhile (\<lambda>x. x \<noteq> c) (rev s))"
proof (induction s)
  case Nil
  show ?case by simp
next
  case (Cons x xs)
  show ?case
  proof (cases "x = c")
    case True
    then show ?thesis using Cons.IH pieces_not_Nil [of c xs]
      by (simp add: takeWhile_append)
  next
    case False
    show ?thesis
    proof (cases "c \<in> set xs")
      case True
      obtain p ps where ps: "pieces c xs = p # ps"
        using pieces_not_Nil [of c xs] by (cases "pieces c xs") auto
      with pieces_present [OF True] have "ps \<noteq> []" by simp
      with ps False True Cons.IH show ?thesis
        by (auto simp: takeWhile_append)
    next
      case notin: False
      with False show ?thesis
        by (simp add: pieces_absent takeWhile_append)
    qed
  qed
qed

lemma js_includes_sublist: "js_includes s t = sublist t s"
  by (induction s) (auto simp: sublist_Cons_right)

lemma sublist_trans: "sublist xs ys \<Longrightarrow> sublist ys zs \<Longrightarrow> sublist xs (zs :: 'a list)"
  unfolding sublist_def by (metis append.assoc)

lemma sublist_single: "c \<in> set s \<Longrightarrow> sublist [c] s"
  by (metis append_Cons append_Nil split_list sublist_appendI)

lemma sublist_split_at: "l \<in> set (split_at sep acc s) \<Longrightarrow> sublist l (rev acc @ s)"
proof (induction sep acc s rule: split_at.induct)
  case (1 sep acc)
  then show ?case by simp
next
  case (2 sep acc c cs)
  show ?case
  proof (cases "prefix sep (c # cs)")
    case True
    with "2.prems" consider "l = rev acc" | "l \<in> set (split_at sep [] (drop (length sep - 1) cs))"
      by auto
    then show ?thesis
    proof cases
      case 1
      then show ?thesis by simp
    next
      case 2
      with "2.IH"(1) [OF True] have "sublist l (drop (length sep - 1) cs)" by simp
      moreover have "sublist (drop (length sep - 1) cs) (rev acc @ c # cs)"
        by (metis append_Cons append_assoc append_take_drop_id sublist_append_leftI)
      ultimately show ?thesis by (rule sublist_trans)
    qed
  next
    case False
    with "2.prems" "2.IH"(2) show ?thesis by simp
  qed
qed

lemma sublist_js_split: "l \<in> set (js_split sep s) \<Longrightarrow> sublist l s"
  using sublist_split_at [of l sep "[]" s]
  by (auto simp: js_split_def sublist_single split: if_splits)


lemma map_of_obj_set: "map_of (obj_set obj k v) = (map_of obj)(k \<mapsto> v)"
  by (induction obj) auto

lemma keys_obj_set: "fst ` set (obj_set obj k v) = insert k (fst ` set obj)"
  by (induction obj) (force split: if_splits)+

lemma map_of_spread:
  "k \<notin> fst ` set extra \<Longrightarrow> map_of (spread base extra) k = map_of base k"
  unfolding spread_def
  by (induction extra arbitrary: base) (auto simp: map_of_obj_set)

lemma keys_detail_step:
  "fst ` set (detail_step rows info ki) \<subseteq> insert (fst ki) (fst ` set info)"
proof (cases ki)
  case (Pair key label)
  show ?thesis
  proof (cases "find (\<lambda>row. prefix label row) rows")
    case None
    with Pair show ?thesis by (auto simp: detail_step_def)
  next
    case (Some row)
    with Pair keys_obj_set [of info key "trim (drop (length label) row)"] show ?thesis
      by (auto simp: detail_step_def)
  qed
qed

lemma keys_detail_fold:
  "fst ` set (foldl (detail_step rows) info kis) \<subseteq> fst ` set kis \<union> fst ` set info"
proof (induction kis arbitrary: info)
  case Nil
  show ?case by simp
next
  case (Cons ki kis)
  from Cons.IH [of "detail_step rows info ki"] keys_detail_step [of rows info ki]
  show ?case by auto
qed

lemma keys_detail_info:
  "fst ` set (detail_info block) \<subseteq> {''printer-info'', ''printer-location''}"
proof (cases block)
  case None
  then show ?thesis by (simp add: detail_info_def)
next
  case (Some b)
  have "fst ` set (foldl (detail_step rows) [] lpstat_detail_ki)
          \<subseteq> {''printer-info'', ''printer-location''}" for rows
    using keys_detail_fold [of rows "[]" lpstat_detail_ki]
    by (simp add: lpstat_detail_ki_def)
  with Some show ?thesis by (cases "truthy b") (simp_all add: detail_info_def Let_def)
qed

lemma name_new_printer: "name (new_printer stats nm) = nm"
  by (simp add: new_printer_def Let_def)

lemma foldl_line_step:
  assumes "foldl (line_step stats) (cur, res) ls = (cur', res')"
    and "\<forall>p. cur = Some p \<longrightarrow> p = new_printer stats (name p)"
    and "\<forall>p \<in> set res. p = new_printer stats (name p)"
  shows "\<forall>p \<in> set res'. p = new_printer stats (name p)"
  using assms
proof (induction ls arbitrary: cur res)
  case Nil
  then show ?case by simp
next
  case (Cons l ls)
  obtain c r where st: "line_step stats (cur, res) l = (c, r)"
    by (cases "line_step stats (cur, res) l")
  have c: "\<forall>p. c = Some p \<longrightarrow> p = new_printer stats (name p)"
    using st Cons.prems(2)
    by (auto simp: line_step_def Let_def name_new_printer split: if_splits)
  have r: "\<forall>p \<in> set r. p = new_printer stats (name p)"
    using st Cons.prems(2,3) c
    by (auto simp: line_step_def Let_def split: if_splits option.splits)
  from Cons.prems(1) st have "foldl (line_step stats) (c, r) ls = (cur', res')" by simp
  from Cons.IH [OF this c r] show ?case .
qed

lemma extractPrinters_new_printer:
  "p \<in> set (extractPrinters stats) \<Longrightarrow> p = new_printer stats (name p)"
proof -
  assume p: "p \<in> set (extractPrinters stats)"
  obtain c r where f: "foldl (line_step stats) (None, []) (js_split ''\<newline>'' (stat_printers stats)) = (c, r)"
    by (cases "foldl (line_step stats) (None, []) (js_split ''\<newline>'' (stat_printers stats))")
  from foldl_line_step [OF f] have "\<forall>p \<in> set r. p = new_printer stats (name p)" by simp
  with p f show ?thesis by (simp add: extractPrinters_def)
qed

lemma accepting_new_printer:
  "map_of (options (new_printer stats nm)) ''printer-is-accepting-jobs'' =
     Some (if \<exists>l \<in> set (js_split ''\<newline>'' (stat_accepting stats)).
                js_includes l (js_string nm @ '' accepting'')
           then ''true'' else ''false'')"
proof -
  have k: "''printer-is-accepting-jobs'' \<notin> fst ` set (detail_info b)" for b
    using keys_detail_info [of b] by auto
  have "truthy_opt (find (\<lambda>l. js_includes l (js_string nm @ '' accepting'')) ls)
          \<longleftrightarrow> (\<exists>l \<in> set ls. js_includes l (js_string nm @ '' accepting''))" for ls
  proof (cases "find (\<lambda>l. js_includes l (js_string nm @ '' accepting'')) ls")
    case None
    then have "\<not> (\<exists>l \<in> set ls. js_includes l (js_string nm @ '' accepting''))"
      by (simp add: find_None_iff)
    with None show ?thesis by (simp add: truthy_opt_def)
  next
    case (Some l)
    then have "l \<in> set ls" "js_includes l (js_string nm @ '' accepting'')"
      by (auto simp: find_Some_iff)
    moreover from this have "l \<noteq> []"
      by (auto simp: js_includes_sublist)
    ultimately show ?thesis using Some by (auto simp: truthy_opt_def truthy_def)
  qed
  with k show ?thesis
    by (simp add: new_printer_def Let_def map_of_spread)
qed

lemma uri_new_printer:
  "map_of (options (new_printer stats nm)) ''device-uri'' =
     Some (case find (\<lambda>l. js_includes l (js_string nm @ '': ''))
                  (js_split ''\<newline>'' (stat_addresses stats)) of
             None \<Rightarrow> []
           | Some l \<Rightarrow> last (js_split '' '' l))"
proof -
  have k: "''device-uri'' \<notin> fst ` set (detail_info b)" for b
    using keys_detail_info [of b] by auto
  have t: "find (\<lambda>l. js_includes l (js_string nm @ '': '')) ls = Some l \<Longrightarrow> truthy l" for ls l
    by (auto simp: find_Some_iff truthy_def js_includes_sublist)
  have n: "js_split '' '' l ! (length (js_split '' '' l) - Suc 0) = last (js_split '' '' l)" for l
    using pieces_not_Nil [of "CHR '' ''" l] by (simp add: js_split_pieces last_conv_nth)
  show ?thesis
    by (auto simp: new_printer_def Let_def map_of_spread k n dest: t split: option.splits)
qed

section \<open>The extractor: one record per line\<close>

lemma extractPrinters_empty: "stat_printers stats = [] \<Longrightarrow> extractPrinters stats = []"
  by (simp add: extractPrinters_def js_split_def line_step_def js_nth_def)

text \<open>The extractor returns one record for every line of the printers text from the
  first header line on.\<close>

lemma line_step_header:
  "header_line l \<Longrightarrow> \<exists>p. line_step stats (cur, res) l = (Some p, res @ [p])"
  by (simp add: line_step_def header_line_def Let_def)

lemma line_step_other:
  "\<not> header_line l \<Longrightarrow>
     line_step stats (cur, res) l = (cur, case cur of None \<Rightarrow> res | Some p \<Rightarrow> res @ [p])"
  by (simp add: line_step_def header_line_def Let_def)

lemma foldl_line_step_Some:
  "length (snd (foldl (line_step stats) (Some p, res) ls)) = length res + length ls"
proof (induction ls arbitrary: p res)
  case Nil
  show ?case by simp
next
  case (Cons l ls)
  show ?case
  proof (cases "header_line l")
    case True
    from line_step_header [OF True, of stats "Some p" res] obtain q where
      "line_step stats (Some p, res) l = (Some q, res @ [q])" by blast
    with Cons.IH [of q "res @ [q]"] show ?thesis by simp
  next
    case False
    with Cons.IH [of p "res @ [p]"] show ?thesis by (simp add: line_step_other)
  qed
qed

lemma foldl_line_step_None:
  "length (snd (foldl (line_step stats) (None, res) ls)) =
     length res + length (dropWhile (\<lambda>l. \<not> header_line l) ls)"
proof (induction ls arbitrary: res)
  case Nil
  show ?case by simp
next
  case (Cons l ls)
  show ?case
  proof (cases "header_line l")
    case True
    from line_step_header [OF True, of stats None res] obtain q where
      "line_step stats (None, res) l = (Some q, res @ [q])" by blast
    with True show ?thesis by (simp add: foldl_line_step_Some)
  next
    case False
    with Cons.IH [of res] show ?thesis by (simp add: line_step_other)
  qed
qed

lemma extractPrinters_length:
  "length (extractPrinters stats) =
     length (dropWhile (\<lambda>l. \<not> header_line l) (pieces (CHR ''\<newline>'') (stat_printers stats)))"
  using foldl_line_step_None [of stats "[]" "js_split ''\<newline>'' (stat_printers stats)"]
  by (simp add: extractPrinters_def js_split_pieces)

text \<open>
  Claim C1: for a printers text with N distinct header lines \<^verbatim>\<open>printer <name>\<close> the
  extractor returns exactly N records, one per name, in the order of first appearance.
  The loop pushes \<^verbatim>\<open>currentPrinter\<close> at every line once a header has been seen,
  the header's own line included, so the output of \<^verbatim>\<open>lpstat -p\<close> for the one
  printer \<open>A\<close>, which ends with a line feed, gives two records of \<open>A\<close>: one for
  the header line and one for the empty piece after the line feed.
\<close>

theorem extractPrinters_one_header_two_records:
  "extractPrinters
     \<lparr> stat_printers = ''printer A is idle.\<newline>'',
       stat_accepting = ''A accepting requests\<newline>'',
       stat_addresses = ''device for A: socket://10.0.0.1\<newline>'',
       stat_default = ''system default destination: A\<newline>'',
       stat_details = ''printer A is idle.\<newline>'' \<rparr>
   = [\<lparr> name = Some ''A'', isDefault = True,
         options = [(''printer-is-accepting-jobs'', ''true''),
                    (''device-uri'', ''socket://10.0.0.1'')] \<rparr>,
      \<lparr> name = Some ''A'', isDefault = True,
         options = [(''printer-is-accepting-jobs'', ''true''),
                    (''device-uri'', ''socket://10.0.0.1'')] \<rparr>]"
  by code_simp

section \<open>The job id read from the confirmation\<close>

lemma to_number_digits:
  "to_number ''5'' = Integer 5" "to_number ''92'' = Integer 92" "to_number ''7'' = Integer 7"
  by (simp_all add: to_number_def trim_def is_space_def is_digit_def decimal_def)

lemma callback_P1_5: "callback ''request id is P1-5 (1 file(s))\<newline>'' = VNumber (Integer 5)"
proof -
  have "filter truthy (js_split '' '' ''request id is P1-5 (1 file(s))\<newline>'')
          = [''request'', ''id'', ''is'', ''P1-5'', ''(1'', ''file(s))\<newline>'']"
    by code_simp
  moreover have "js_split ''-'' ''P1-5'' = [''P1'', ''5'']"
    by code_simp
  ultimately show ?thesis
    by (simp add: callback_def to_number_digits)
qed

lemma callback_ZPL_92:
  "callback ''request id is ZPL-PRINTER-92 (0 file(s))'' = VNumber (Integer 92)"
proof -
  have "filter truthy (js_split '' '' ''request id is ZPL-PRINTER-92 (0 file(s))'')
          = [''request'', ''id'', ''is'', ''ZPL-PRINTER-92'', ''(0'', ''file(s))'']"
    by code_simp
  moreover have "js_split ''-'' ''ZPL-PRINTER-92'' = [''ZPL'', ''PRINTER'', ''92'']"
    by code_simp
  ultimately show ?thesis
    by (simp add: callback_def to_number_digits)
qed

lemma nth_last_piece:
  "js_split [c] s ! (length (js_split [c] s) - 1) = after_last c s"
proof -
  have "pieces c s ! (length (pieces c s) - 1) = last (pieces c s)"
    using last_conv_nth [OF pieces_not_Nil, of c s] by simp
  then show ?thesis
    by (simp only: js_split_pieces last_pieces after_last_def)
qed

text \<open>
  Claim C3, as amended: for every confirmation text the handle is a number. The text is
  split at the space character and the empty pieces are dropped; with more than three
  tokens the third token from the last is taken, otherwise the whole response as it is
  (not trimmed); the handle is the number read from the part of that text after its last
  \<open>-\<close>. For \<^verbatim>\<open>request id is ZPL-PRINTER-92 (0 file(s))\<close> it is 92.
\<close>

theorem callback_reads_number:
  "callback response =
     (let tokens = filter (\<lambda>t. t \<noteq> []) (pieces (CHR '' '') response)
      in VNumber (to_number (after_last (CHR ''-'')
           (if length tokens > 3 then rev tokens ! 2 else response))))
   \<and> callback ''request id is ZPL-PRINTER-92 (0 file(s))'' = VNumber (Integer 92)"
proof -
  define tokens where "tokens = filter (\<lambda>t. t \<noteq> []) (pieces (CHR '' '') response)"
  have "truthy = (\<lambda>t. t \<noteq> [])"
    by (rule ext) (simp add: truthy_def)
  then have t: "filter truthy (js_split '' '' response) = tokens"
    by (simp add: tokens_def js_split_pieces)
  have r: "length tokens > 3 \<Longrightarrow> tokens ! (length tokens - 3) = rev tokens ! 2"
    by (simp add: rev_nth numeral_3_eq_3)
  have "callback response =
          VNumber (to_number (after_last (CHR ''-'')
            (if length tokens > 3 then tokens ! (length tokens - 3) else response)))"
    unfolding callback_def Let_def t nth_last_piece ..
  also have "\<dots> = VNumber (to_number (after_last (CHR ''-'')
            (if length tokens > 3 then rev tokens ! 2 else response)))"
    using r by simp
  finally have "callback response =
     (let tokens = filter (\<lambda>t. t \<noteq> []) (pieces (CHR '' '') response)
      in VNumber (to_number (after_last (CHR ''-'')
           (if length tokens > 3 then rev tokens ! 2 else response))))"
    by (simp add: tokens_def Let_def)
  then show ?thesis using callback_ZPL_92 by simp
qed

text \<open>
  Claim C3 as stated fails where it has the response returned as it is: the response
  \<^verbatim>\<open>job-7\<close> has one token, and the handle is the number 7, not the text.
\<close>

theorem callback_not_verbatim:
  "callback ''job-7'' = VNumber (Integer 7) \<and> claimed_handle ''job-7'' = VString ''job-7''
   \<and> callback ''job-7'' \<noteq> claimed_handle ''job-7''"
proof -
  have "filter truthy (js_split '' '' ''job-7'') = [''job-7'']" by code_simp
  moreover have "js_split ''-'' ''job-7'' = [''job'', ''7'']" by code_simp
  ultimately have c: "callback ''job-7'' = VNumber (Integer 7)"
    by (simp add: callback_def to_number_digits)
  have "ws_tokens ''job-7'' = [''job-7'']" by code_simp
  moreover have "trim ''job-7'' = ''job-7''" by code_simp
  ultimately have h: "claimed_handle ''job-7'' = VString ''job-7''"
    by (simp add: claimed_handle_def)
  from c h show ?thesis by simp
qed

section \<open>The submission: validation, arguments and the returned promise\<close>

lemma push_if_append: "push_if c xs (a @ b) = a @ push_if c xs b"
  by (simp add: push_if_def)

lemma push_flags_append: "push_flags opts (a @ b) = a @ push_flags opts b"
  by (simp add: push_flags_def Let_def push_if_append)

lemma push_flags_prefix: "push_flags opts a = a @ push_flags opts []"
  using push_flags_append [of opts a "[]"] by simp

lemma push_if_alt: "push_if c xs as = as @ (if c then xs else [])"
  by (simp add: push_if_def)

lemma push_flags_not_Nil: "truthy_opt (printer opts) \<Longrightarrow> push_flags opts [] \<noteq> []"
  by (simp add: push_flags_def Let_def push_if_alt)

lemma then_callback_failed: "failed c \<Longrightarrow> then_callback (child_promise cmd as c) = Pending"
  by (auto simp: failed_def then_callback_def child_promise_def split: child.splits)

lemma lp_print_failed_pending:
  assumes "truthy_opt (printer opts)"
    and "payload_truthy (data opts) \<or> truthy_opt (file_path opts)"
    and "\<And>i. failed (spawn os i)"
  shows "settled (lp_print os opts) = Pending"
  using assms
  by (auto simp: lp_print_def Let_def runCommand_def runCommandPipe_def then_callback_failed
      payload_truthy_def split: option.splits)

lemma sample_truthy:
  "truthy_opt (Some ''P1'')" "\<not> truthy_opt None" "\<not> truthy_opt (Some [])"
  "truthy_opt (Some ''/tmp/a.pdf'')" "payload_truthy (Some (Text ''hello''))"
  "\<not> payload_truthy None"
  by (simp_all add: truthy_opt_def truthy_def payload_truthy_def)

text \<open>
  Claim C5: for the request \<^verbatim>\<open>{printer: "P1", data: "hello", copies: 2}\<close> the
  arguments of the command are \<^verbatim>\<open>-o raw\<close>, \<^verbatim>\<open>-n 2\<close>, \<^verbatim>\<open>-d P1\<close> in
  this order and nothing else: no flag for a host, a user, a title, the quality, the
  orientation or the encryption.
\<close>

theorem lp_print_example_arguments:
  "spawned (lp_print os
     (no_options\<lparr> printer := Some ''P1'', data := Some (Text ''hello''), copies := Some 2 \<rparr>))
   = [\<lparr> command = ''lp'', arguments = [''-o'', ''raw'', ''-n'', ''2'', ''-d'', ''P1''],
        input = Some (Text ''hello'') \<rparr>]"
proof -
  have "push_flags
          (no_options\<lparr> printer := Some ''P1'', data := Some (Text ''hello''), copies := Some 2 \<rparr>) []
        = [''-o'', ''raw'', ''-n'', ''2'', ''-d'', ''P1'']"
    by code_simp
  then show ?thesis
    by (simp add: lp_print_def Let_def no_options_def sample_truthy)
qed

text \<open>
  Claim C2: when the submission command fails, the promise that the submission returns
  is rejected. In \<^verbatim>\<open>lp_print\<close> the promise of the runner gets a \<^verbatim>\<open>then\<close>
  and nothing for its rejection, so for a valid request on a system where \<^verbatim>\<open>lp\<close>
  exits with the code 1 the command is run and the returned promise stays pending.
\<close>

theorem lp_print_failure_never_settles:
  "settled (lp_print broken_os
     (no_options\<lparr> printer := Some ''P1'', data := Some (Text ''hello'') \<rparr>)) = Pending
   \<and> spawned (lp_print broken_os
     (no_options\<lparr> printer := Some ''P1'', data := Some (Text ''hello'') \<rparr>))
     = [\<lparr> command = ''lp'', arguments = [''-o'', ''raw'', ''-d'', ''P1''],
          input = Some (Text ''hello'') \<rparr>]"
proof -
  have "push_flags (no_options\<lparr> printer := Some ''P1'', data := Some (Text ''hello'') \<rparr>) []
        = [''-o'', ''raw'', ''-d'', ''P1'']"
    by code_simp
  moreover have "failed (spawn broken_os i)" for i
    by (simp add: broken_os_def failed_def)
  ultimately show ?thesis
    by (simp add: lp_print_def Let_def no_options_def sample_truthy runCommandPipe_def
        then_callback_failed)
qed

text \<open>
  Claim C4, as amended: a request with no printer (absent or empty) is rejected with
  \<^verbatim>\<open>No printer provided\<close>, and a request with a printer and with neither data
  nor a file with \<^verbatim>\<open>No data or file provided\<close>, in both cases before any
  process is spawned; a request with a printer and a file is submitted as the file,
  whether or not it has data too.
\<close>

theorem lp_print_validation:
  "(\<not> truthy_opt (printer opts) \<longrightarrow>
      settled (lp_print os opts) = Rejected (Error ''No printer provided'') \<and>
      spawned (lp_print os opts) = []) \<and>
   (truthy_opt (printer opts) \<and> \<not> payload_truthy (data opts) \<and> \<not> truthy_opt (file_path opts) \<longrightarrow>
      settled (lp_print os opts) = Rejected (Error ''No data or file provided'') \<and>
      spawned (lp_print os opts) = []) \<and>
   (truthy_opt (printer opts) \<and> truthy_opt (file_path opts) \<longrightarrow>
      spawned (lp_print os opts) =
         [\<lparr> command = ''lp'',
            arguments = push_flags opts (case args opts of None \<Rightarrow> [] | Some a \<Rightarrow> a)
                          @ [''--'', js_string (file_path opts)],
            input = None \<rparr>])"
  by (simp add: lp_print_def Let_def)

theorem lp_print_validation_witness:
  "settled (lp_print working_os (no_options\<lparr> data := Some (Text ''hello'') \<rparr>))
     = Rejected (Error ''No printer provided'')
   \<and> spawned (lp_print working_os (no_options\<lparr> data := Some (Text ''hello'') \<rparr>)) = []
   \<and> settled (lp_print working_os (no_options\<lparr> printer := Some ''P1'' \<rparr>))
     = Rejected (Error ''No data or file provided'')
   \<and> spawned (lp_print working_os (no_options\<lparr> printer := Some ''P1'' \<rparr>)) = []
   \<and> spawned (lp_print working_os
         (no_options\<lparr> printer := Some ''P1'', file_path := Some ''/tmp/a.pdf'' \<rparr>))
     = [\<lparr> command = ''lp'', arguments = [''-d'', ''P1'', ''--'', ''/tmp/a.pdf''], input = None \<rparr>]"
proof -
  have "push_flags (no_options\<lparr> printer := Some ''P1'', file_path := Some ''/tmp/a.pdf'' \<rparr>) []
        = [''-d'', ''P1'']"
    by code_simp
  then show ?thesis
    using lp_print_validation [of "no_options\<lparr> data := Some (Text ''hello'') \<rparr>" working_os]
      lp_print_validation [of "no_options\<lparr> printer := Some ''P1'' \<rparr>" working_os]
      lp_print_validation [of "no_options\<lparr> printer := Some ''P1'', file_path := Some ''/tmp/a.pdf'' \<rparr>" working_os]
    by (simp add: no_options_def sample_truthy js_string_def)
qed

text \<open>
  Claim C4 as stated has a request with both data and a file fail the validation; it
  passes, and the file is submitted.
\<close>

theorem lp_print_accepts_data_and_file:
  "settled (lp_print working_os
      (no_options\<lparr> printer := Some ''P1'', data := Some (Text ''hello''),
                    file_path := Some ''/tmp/a.pdf'' \<rparr>))
     = Resolved (VNumber (Integer 5))
   \<and> spawned (lp_print working_os
      (no_options\<lparr> printer := Some ''P1'', data := Some (Text ''hello''),
                    file_path := Some ''/tmp/a.pdf'' \<rparr>))
     = [\<lparr> command = ''lp'', arguments = [''-d'', ''P1'', ''--'', ''/tmp/a.pdf''], input = None \<rparr>]"
proof -
  have "push_flags (no_options\<lparr> printer := Some ''P1'', data := Some (Text ''hello''),
                    file_path := Some ''/tmp/a.pdf'' \<rparr>) [] = [''-d'', ''P1'']"
    by code_simp
  then show ?thesis
    by (simp add: lp_print_def Let_def no_options_def sample_truthy js_string_def runCommand_def
        working_os_def child_promise_def then_callback_def callback_P1_5)
qed

text \<open>
  Claim C10: the array \<^verbatim>\<open>options.args\<close> of the caller is the array the flags are
  pushed on. After a call that passes the validation it holds the caller's arguments
  followed by every generated flag, and that is the argument list of the command: the
  caller's arguments come before the format, copies and printer flags. A call that
  fails the validation leaves the array as it was.
\<close>

theorem lp_print_appends_to_caller_args:
  assumes "args opts = Some a"
  shows "(\<not> truthy_opt (printer opts) \<or>
            (\<not> payload_truthy (data opts) \<and> \<not> truthy_opt (file_path opts)) \<longrightarrow>
          caller_args (lp_print os opts) = Some a \<and> spawned (lp_print os opts) = []) \<and>
         (truthy_opt (printer opts) \<and>
            (payload_truthy (data opts) \<or> truthy_opt (file_path opts)) \<longrightarrow>
          (\<exists>gen. gen \<noteq> [] \<and>
             gen = push_flags opts [] @
                 (if truthy_opt (file_path opts) then [''--'', js_string (file_path opts)] else []) \<and>
             caller_args (lp_print os opts) = Some (a @ gen) \<and>
             map arguments (spawned (lp_print os opts)) = [a @ gen]))"
proof (intro conjI impI)
  assume "\<not> truthy_opt (printer opts) \<or>
            (\<not> payload_truthy (data opts) \<and> \<not> truthy_opt (file_path opts))"
  with assms show "caller_args (lp_print os opts) = Some a" "spawned (lp_print os opts) = []"
    by (auto simp: lp_print_def)
next
  assume v: "truthy_opt (printer opts) \<and>
            (payload_truthy (data opts) \<or> truthy_opt (file_path opts))"
  have p: "push_flags opts a = a @ push_flags opts []"
    by (rule push_flags_prefix)
  have n: "push_flags opts [] \<noteq> []"
    using v by (simp add: push_flags_not_Nil)
  show "\<exists>gen. gen \<noteq> [] \<and>
             gen = push_flags opts [] @
                 (if truthy_opt (file_path opts) then [''--'', js_string (file_path opts)] else []) \<and>
             caller_args (lp_print os opts) = Some (a @ gen) \<and>
             map arguments (spawned (lp_print os opts)) = [a @ gen]"
  proof (cases "truthy_opt (file_path opts)")
    case True
    with assms v p n show ?thesis by (simp add: lp_print_def Let_def)
  next
    case False
    with v obtain d where d: "data opts = Some d" "payload_truthy (Some d)"
      by (cases "data opts") (auto simp: payload_truthy_def)
    with False assms v p n show ?thesis by (simp add: lp_print_def Let_def)
  qed
qed

theorem lp_print_appends_to_caller_args_witness:
  "caller_args (lp_print working_os
      (no_options\<lparr> printer := Some ''P1'', data := Some (Text ''hello''),
                    args := Some [''-o'', ''media=A4''] \<rparr>))
     = Some [''-o'', ''media=A4'', ''-o'', ''raw'', ''-d'', ''P1'']
   \<and> map arguments (spawned (lp_print working_os
      (no_options\<lparr> printer := Some ''P1'', data := Some (Text ''hello''),
                    args := Some [''-o'', ''media=A4''] \<rparr>)))
     = [[''-o'', ''media=A4'', ''-o'', ''raw'', ''-d'', ''P1'']]
   \<and> caller_args (lp_print working_os (no_options\<lparr> args := Some [''-o'', ''media=A4''] \<rparr>))
     = Some [''-o'', ''media=A4'']
   \<and> spawned (lp_print working_os (no_options\<lparr> args := Some [''-o'', ''media=A4''] \<rparr>)) = []"
proof -
  have "push_flags (no_options\<lparr> printer := Some ''P1'', data := Some (Text ''hello''),
                    args := Some [''-o'', ''media=A4''] \<rparr>) [] = [''-o'', ''raw'', ''-d'', ''P1'']"
    by code_simp
  then show ?thesis
    using lp_print_appends_to_caller_args [of
        "no_options\<lparr> printer := Some ''P1'', data := Some (Text ''hello''),
                    args := Some [''-o'', ''media=A4''] \<rparr>" "[''-o'', ''media=A4'']" working_os]
      lp_print_appends_to_caller_args [of
        "no_options\<lparr> args := Some [''-o'', ''media=A4''] \<rparr>" "[''-o'', ''media=A4'']" working_os]
    by (simp add: no_options_def sample_truthy)
qed

text \<open>\<^verbatim>\<open>printDirect\<close> is such a caller: its own \<^verbatim>\<open>-o\<close> flags come first.\<close>

lemma printDirect_arguments:
  assumes "pd_error opts" "pd_success opts" "payload_truthy (pd_data opts)"
    and "truthy_opt (pd_printer opts)"
  shows "map arguments (snd (printDirect os opts)) =
           [direct_args opts @ [''-o'', ''raw'', ''-d'', js_string (pd_printer opts)]]"
proof -
  have l: "toLowerCase ''RAW'' = ''raw''"
    by code_simp
  have f: "push_flags (direct_request opts) [] = [''-o'', ''raw'', ''-d'', js_string (pd_printer opts)]"
    using assms(4)
    by (simp add: push_flags_def push_if_def direct_request_def type_of_options_def l
        truthy_opt_def num_truthy_def host_of_options_def scalar_opt_truthy_def truthy_def)
  from assms(3) obtain d where d: "pd_data opts = Some d" "payload_truthy (Some d)"
    by (cases "pd_data opts") (auto simp: payload_truthy_def)
  have "spawned (lp_print os (direct_request opts)) =
          [\<lparr> command = ''lp'',
             arguments = direct_args opts @ [''-o'', ''raw'', ''-d'', js_string (pd_printer opts)],
             input = Some d \<rparr>]"
    using assms(4) d push_flags_prefix [of "direct_request opts" "direct_args opts"] f
    by (simp add: lp_print_def Let_def direct_request_def truthy_opt_def)
  with assms show ?thesis
    by (simp add: printDirect_def Let_def)
qed

section \<open>The options of an extracted record\<close>

lemma find_filter: "find P xs = (case filter P xs of [] \<Rightarrow> None | x # _ \<Rightarrow> Some x)"
  by (induction xs) auto

lemma sublist_prefix_part: "sublist (n @ t) l \<Longrightarrow> sublist n l"
  unfolding sublist_def by (metis append.assoc)

lemma absent_no_line:
  assumes "\<not> sublist n text"
  shows "find (\<lambda>l. js_includes l (n @ t)) (js_split sep text) = None"
proof -
  have "\<not> js_includes l (n @ t)" if "l \<in> set (js_split sep text)" for l
  proof
    assume "js_includes l (n @ t)"
    then have "sublist n l"
      by (simp add: js_includes_sublist sublist_prefix_part)
    with sublist_js_split [OF that] have "sublist n text"
      by (blast intro: sublist_trans)
    with assms show False by simp
  qed
  then show ?thesis by (simp add: find_None_iff)
qed

lemma absent_no_block:
  assumes "\<not> sublist n text"
  shows "find (\<lambda>l. js_includes l (n @ t)) (filter truthy (js_split sep text)) = None"
proof -
  have "\<not> js_includes l (n @ t)" if "l \<in> set (js_split sep text)" for l
  proof
    assume "js_includes l (n @ t)"
    then have "sublist n l"
      by (simp add: js_includes_sublist sublist_prefix_part)
    with sublist_js_split [OF that] have "sublist n text"
      by (blast intro: sublist_trans)
    with assms show False by simp
  qed
  then show ?thesis by (simp add: find_None_iff)
qed

lemma new_printer_absent:
  assumes "\<not> sublist (js_string nm) (stat_addresses stats)"
    and "\<not> sublist (js_string nm) (stat_accepting stats)"
    and "\<not> sublist (js_string nm) (stat_details stats)"
  shows "options (new_printer stats nm) =
           [(''printer-is-accepting-jobs'', ''false''), (''device-uri'', [])]"
  using absent_no_line [OF assms(1), of "'': ''" "''\<newline>''"]
    absent_no_line [OF assms(2), of "'' accepting''" "''\<newline>''"]
    absent_no_block [OF assms(3), of "'' ''" "''\<newline>printer''"]
  by (simp add: new_printer_def Let_def detail_info_def spread_def truthy_opt_def)

lemma extractPrinters_sample:
  "extractPrinters sample_stats =
     [\<lparr> name = Some ''A'', isDefault = True,
         options = [(''printer-is-accepting-jobs'', ''true''),
                    (''device-uri'', ''socket://10.0.0.1'')] \<rparr>,
      \<lparr> name = Some ''B'', isDefault = False,
         options = [(''printer-is-accepting-jobs'', ''false''), (''device-uri'', [])] \<rparr>,
      \<lparr> name = Some ''B'', isDefault = False,
         options = [(''printer-is-accepting-jobs'', ''false''), (''device-uri'', [])] \<rparr>]"
  by code_simp

text \<open>
  Claim C7: every record the extractor emits has, in its options, the key
  \<^verbatim>\<open>printer-is-accepting-jobs\<close> with the value \<^verbatim>\<open>true\<close> or \<^verbatim>\<open>false\<close>
  and the key \<^verbatim>\<open>device-uri\<close>; and when the name of the record occurs in none of
  the addresses, accepting and details texts, the options are these two keys only, with
  \<^verbatim>\<open>false\<close> and the empty address. A name that is undefined (a header line with
  the one word \<^verbatim>\<open>printer\<close>) is looked for as the text \<^verbatim>\<open>undefined\<close>, as the
  code does.
\<close>

theorem extractPrinters_options:
  "\<forall>p \<in> set (extractPrinters stats).
     map_of (options p) ''printer-is-accepting-jobs'' \<in> {Some ''true'', Some ''false''} \<and>
     (\<exists>uri. map_of (options p) ''device-uri'' = Some uri) \<and>
     (\<not> sublist (js_string (name p)) (stat_addresses stats) \<and>
      \<not> sublist (js_string (name p)) (stat_accepting stats) \<and>
      \<not> sublist (js_string (name p)) (stat_details stats) \<longrightarrow>
        options p = [(''printer-is-accepting-jobs'', ''false''), (''device-uri'', [])])"
proof
  fix p
  assume "p \<in> set (extractPrinters stats)"
  then have p: "p = new_printer stats (name p)"
    by (rule extractPrinters_new_printer)
  have "map_of (options (new_printer stats (name p))) ''printer-is-accepting-jobs''
          \<in> {Some ''true'', Some ''false''}"
    by (simp add: accepting_new_printer)
  moreover have "\<exists>uri. map_of (options (new_printer stats (name p))) ''device-uri'' = Some uri"
    by (simp add: uri_new_printer)
  moreover have "\<not> sublist (js_string (name p)) (stat_addresses stats) \<and>
      \<not> sublist (js_string (name p)) (stat_accepting stats) \<and>
      \<not> sublist (js_string (name p)) (stat_details stats) \<longrightarrow>
        options (new_printer stats (name p))
          = [(''printer-is-accepting-jobs'', ''false''), (''device-uri'', [])]"
    by (simp add: new_printer_absent)
  ultimately show "map_of (options p) ''printer-is-accepting-jobs'' \<in> {Some ''true'', Some ''false''} \<and>
     (\<exists>uri. map_of (options p) ''device-uri'' = Some uri) \<and>
     (\<not> sublist (js_string (name p)) (stat_addresses stats) \<and>
      \<not> sublist (js_string (name p)) (stat_accepting stats) \<and>
      \<not> sublist (js_string (name p)) (stat_details stats) \<longrightarrow>
        options p = [(''printer-is-accepting-jobs'', ''false''), (''device-uri'', [])])"
    using p by metis
qed

theorem extractPrinters_options_witness:
  "\<lparr> name = Some ''B'', isDefault = False,
      options = [(''printer-is-accepting-jobs'', ''false''), (''device-uri'', [])] \<rparr>
     \<in> set (extractPrinters sample_stats) \<and>
   \<not> sublist ''B'' (stat_addresses sample_stats) \<and>
   \<not> sublist ''B'' (stat_accepting sample_stats) \<and>
   \<not> sublist ''B'' (stat_details sample_stats) \<and>
   map_of (options \<lparr> name = Some ''B'', isDefault = False,
      options = [(''printer-is-accepting-jobs'', ''false''), (''device-uri'', [])] \<rparr>)
     ''printer-is-accepting-jobs'' \<in> {Some ''true'', Some ''false''}"
proof -
  have "\<not> sublist ''B'' (stat_addresses sample_stats)"
    "\<not> sublist ''B'' (stat_accepting sample_stats)"
    "\<not> sublist ''B'' (stat_details sample_stats)"
    by code_simp+
  then show ?thesis
    using extractPrinters_options [of sample_stats]
    by (simp add: extractPrinters_sample)
qed

text \<open>
  Claim C9, as amended: every emitted record is the one built for its name, and for
  every name the address is taken from the first line of the addresses text that
  contains the name followed by a colon and a space: it is the part of that line after
  its last space character (the last piece of \<^verbatim>\<open>split(' ')\<close>, so it is empty when
  the line ends with a space, and a tab or a carriage return in it is kept), and it is
  empty when there is no such line. The accepting flag is \<^verbatim>\<open>true\<close> exactly when a
  line of the accepting text contains the name followed by \<^verbatim>\<open> accepting\<close>.
\<close>

theorem extractPrinters_address_accepting:
  "(\<forall>p \<in> set (extractPrinters stats). p = new_printer stats (name p)) \<and>
   map_of (options (new_printer stats nm)) ''device-uri'' =
     Some (case filter (\<lambda>l. sublist (js_string nm @ '': '') l)
                  (pieces (CHR ''\<newline>'') (stat_addresses stats)) of
             [] \<Rightarrow> []
           | l # _ \<Rightarrow> after_last (CHR '' '') l) \<and>
   map_of (options (new_printer stats nm)) ''printer-is-accepting-jobs'' =
     Some (if \<exists>l \<in> set (pieces (CHR ''\<newline>'') (stat_accepting stats)).
                sublist (js_string nm @ '' accepting'') l
           then ''true'' else ''false'')"
proof -
  have i: "(\<lambda>l. js_includes l t) = (\<lambda>l. sublist t l)" for t
    by (rule ext) (rule js_includes_sublist)
  have l: "last (pieces (CHR '' '') l) = after_last (CHR '' '') l" for l
    by (simp add: last_pieces after_last_def)
  have "map_of (options (new_printer stats nm)) ''device-uri'' =
     Some (case filter (\<lambda>l. sublist (js_string nm @ '': '') l)
                  (pieces (CHR ''\<newline>'') (stat_addresses stats)) of
             [] \<Rightarrow> []
           | l # _ \<Rightarrow> after_last (CHR '' '') l)"
    by (simp add: uri_new_printer find_filter i l js_split_pieces split: list.splits)
  moreover have "map_of (options (new_printer stats nm)) ''printer-is-accepting-jobs'' =
     Some (if \<exists>l \<in> set (pieces (CHR ''\<newline>'') (stat_accepting stats)).
                sublist (js_string nm @ '' accepting'') l
           then ''true'' else ''false'')"
    by (simp add: accepting_new_printer js_includes_sublist js_split_pieces)
  ultimately show ?thesis
    using extractPrinters_new_printer by blast
qed

theorem extractPrinters_address_accepting_witness:
  "new_printer sample_stats (Some ''A'') \<in> set (extractPrinters sample_stats) \<and>
   name (new_printer sample_stats (Some ''A'')) = Some ''A'' \<and>
   map_of (options (new_printer sample_stats (Some ''A''))) ''device-uri''
     = Some ''socket://10.0.0.1'' \<and>
   map_of (options (new_printer sample_stats (Some ''A''))) ''printer-is-accepting-jobs''
     = Some ''true''"
proof -
  have a: "(case filter (\<lambda>l. sublist (js_string (Some ''A'') @ '': '') l)
                  (pieces (CHR ''\<newline>'') (stat_addresses sample_stats)) of
             [] \<Rightarrow> []
           | l # _ \<Rightarrow> after_last (CHR '' '') l) = ''socket://10.0.0.1''"
    by code_simp
  have b: "\<exists>l \<in> set (pieces (CHR ''\<newline>'') (stat_accepting sample_stats)).
                sublist (js_string (Some ''A'') @ '' accepting'') l"
    by code_simp
  have m: "new_printer sample_stats (Some ''A'') \<in> set (extractPrinters sample_stats)"
    by code_simp
  show ?thesis
    using extractPrinters_address_accepting [of sample_stats "Some ''A''"] a b m
    by (simp add: name_new_printer)
qed

text \<open>
  Claim C9 as stated takes the last token between white space of the line. For the line
  \<^verbatim>\<open>device for A: usb://x \<close>, which ends with a space, that token is
  \<^verbatim>\<open>usb://x\<close> and the address of the record is empty.
\<close>

theorem address_is_not_the_last_token:
  "new_printer trailing_stats (Some ''A'') \<in> set (extractPrinters trailing_stats) \<and>
   map_of (options (new_printer trailing_stats (Some ''A''))) ''device-uri'' = Some [] \<and>
   claimed_address (stat_addresses trailing_stats) ''A'' = ''usb://x'' \<and>
   map_of (options (new_printer trailing_stats (Some ''A''))) ''device-uri'' \<noteq>
     Some (claimed_address (stat_addresses trailing_stats) ''A'')"
proof -
  have m: "new_printer trailing_stats (Some ''A'') \<in> set (extractPrinters trailing_stats)"
    by code_simp
  have u: "map_of (options (new_printer trailing_stats (Some ''A''))) ''device-uri'' = Some []"
    by code_simp
  have c: "claimed_address (stat_addresses trailing_stats) ''A'' = ''usb://x''"
    by code_simp
  from m u c show ?thesis by simp
qed

section \<open>The directory: loading and looking up\<close>

lemma runCommandSync_status:
  "isl (runCommandSync os (hd ws) (tl ws)) \<longleftrightarrow> status (spawnSync os (invocation_of ws)) \<noteq> Some 0"
  by (simp add: runCommandSync_def invocation_of_def Let_def)

lemma run_each_first_failure:
  assumes "\<exists>ws \<in> set cmds. isl (runCommandSync os (hd ws) (tl ws))"
  shows "\<exists>pre ws post e. cmds = pre @ ws # post \<and>
           (\<forall>w \<in> set pre. \<not> isl (runCommandSync os (hd w) (tl w))) \<and>
           runCommandSync os (hd ws) (tl ws) = Inl e \<and>
           run_each os cmds = (Inl e, map invocation_of (pre @ [ws]))"
  using assms
proof (induction cmds)
  case Nil
  then show ?case by simp
next
  case (Cons c cs)
  show ?case
  proof (cases "runCommandSync os (hd c) (tl c)")
    case (Inl e)
    then have "c # cs = [] @ c # cs \<and>
           (\<forall>w \<in> set []. \<not> isl (runCommandSync os (hd w) (tl w))) \<and>
           runCommandSync os (hd c) (tl c) = Inl e \<and>
           run_each os (c # cs) = (Inl e, map invocation_of ([] @ [c]))"
      by simp
    then show ?thesis by blast
  next
    case (Inr out)
    with Cons.prems have "\<exists>ws \<in> set cs. isl (runCommandSync os (hd ws) (tl ws))"
      by auto
    from Cons.IH [OF this] obtain pre ws post e where
      h: "cs = pre @ ws # post"
         "\<forall>w \<in> set pre. \<not> isl (runCommandSync os (hd w) (tl w))"
         "runCommandSync os (hd ws) (tl ws) = Inl e"
         "run_each os cs = (Inl e, map invocation_of (pre @ [ws]))"
      by blast
    with Inr have "c # cs = (c # pre) @ ws # post \<and>
           (\<forall>w \<in> set (c # pre). \<not> isl (runCommandSync os (hd w) (tl w))) \<and>
           runCommandSync os (hd ws) (tl ws) = Inl e \<and>
           run_each os (c # cs) = (Inl e, map invocation_of ((c # pre) @ [ws]))"
      by simp
    then show ?thesis by blast
  qed
qed

lemma run_each_Inl:
  "fst (run_each os cmds) = Inl e \<Longrightarrow> \<exists>ws \<in> set cmds. runCommandSync os (hd ws) (tl ws) = Inl e"
  by (induction cmds) (auto split: sum.splits prod.splits)

lemma run_each_calls: "cmds \<noteq> [] \<Longrightarrow> snd (run_each os cmds) \<noteq> []"
  by (cases cmds) (auto split: sum.splits prod.splits)

text \<open>The responses are as many as the commands, so each of the five texts is
  there when \<^verbatim>\<open>extractPrinters\<close> is called.\<close>

lemma run_each_length:
  "run_each os cmds = (Inr responses, cs) \<Longrightarrow> length responses = length cmds"
  by (induction cmds arbitrary: responses cs) (auto split: sum.splits prod.splits)

lemma promise_all_length:
  "promise_all ps = Resolved vs \<Longrightarrow> length vs = length ps"
  by (induction ps arbitrary: vs rule: promise_all.induct) (auto split: promise.splits)

lemma promise_all_rejected:
  "\<exists>e. Rejected e \<in> set ps \<Longrightarrow> \<exists>e. promise_all ps = Rejected e \<and> Rejected e \<in> set ps"
  by (induction ps rule: promise_all.induct) (auto split: promise.splits)

lemma child_promise_rejecting: "rejecting c \<Longrightarrow> \<exists>e. child_promise cmd as c = Rejected e"
  by (auto simp: rejecting_def child_promise_def split: child.splits)

lemma child_promise_Rejected:
  "child_promise cmd as c = Rejected e \<Longrightarrow> rejecting c \<and> (\<exists>m. e = Message m)"
  by (auto simp: rejecting_def child_promise_def split: child.splits if_splits)

lemma child_promise_failed: "failed c \<Longrightarrow> child_promise cmd as c \<noteq> Resolved out"
  by (auto simp: failed_def child_promise_def split: child.splits)

lemma promise_all_Rejected_mem: "promise_all ps = Rejected e \<Longrightarrow> Rejected e \<in> set ps"
  by (induction ps arbitrary: e rule: promise_all.induct) (auto split: promise.splits)

lemma promise_all_Resolved_all:
  "promise_all ps = Resolved vs \<Longrightarrow> p \<in> set ps \<Longrightarrow> \<exists>v. p = Resolved v"
  by (induction ps arbitrary: vs rule: promise_all.induct) (auto split: promise.splits)

lemma runCommandSync_Inl: "runCommandSync os cmd as = Inl e \<Longrightarrow> \<exists>m. e = Error m"
  by (auto simp: runCommandSync_def Let_def split: if_splits)

lemma commands_not_Nil: "map snd lpstat_commands \<noteq> []"
  by (simp add: lpstat_commands_def)

lemma getPrinters_cold_failure:
  assumes "\<not> printersLoaded this"
    and "\<exists>ws \<in> set (map snd lpstat_commands). status (spawnSync os (invocation_of ws)) \<noteq> Some 0"
  shows "(\<exists>e. returned (getPrinters os this) = Inl e \<and>
            (\<exists>ws \<in> set (map snd lpstat_commands). runCommandSync os (hd ws) (tl ws) = Inl e)) \<and>
         directory (getPrinters os this) = this"
proof -
  from assms(2) have "\<exists>ws \<in> set (map snd lpstat_commands). isl (runCommandSync os (hd ws) (tl ws))"
    by (simp only: runCommandSync_status)
  from run_each_first_failure [OF this] obtain pre ws post e where
    h: "map snd lpstat_commands = pre @ ws # post"
       "runCommandSync os (hd ws) (tl ws) = Inl e"
       "run_each os (map snd lpstat_commands) = (Inl e, map invocation_of (pre @ [ws]))"
    by blast
  from h(1) have "ws \<in> set (map snd lpstat_commands)" by simp
  with h(2,3) assms(1) show ?thesis
    by (auto simp: getPrinters_def)
qed

lemma refresh_promises:
  "printersLoaded this \<Longrightarrow>
     refresh (getPrinters os this) =
       map (\<lambda>ws. runCommand os (hd ws) (tl ws)) (map snd lpstat_commands)"
  by (simp add: getPrinters_def case_prod_beta)

lemma refresh_mem:
  assumes "printersLoaded this"
  shows "p \<in> set (refresh (getPrinters os this)) \<longleftrightarrow>
           (\<exists>ws \<in> set (map snd lpstat_commands). p = runCommand os (hd ws) (tl ws))"
  unfolding refresh_promises [OF assms] by auto

lemma runCommand_child:
  "runCommand os (hd ws) (tl ws) = child_promise (hd ws) (tl ws) (spawn os (invocation_of ws))"
  by (simp add: runCommand_def invocation_of_def)

lemma getPrinters_cold_first_failure:
  assumes "\<not> printersLoaded this"
    and "\<exists>ws \<in> set (map snd lpstat_commands). status (spawnSync os (invocation_of ws)) \<noteq> Some 0"
  shows "\<exists>pre ws post e. map snd lpstat_commands = pre @ ws # post \<and>
           (\<forall>w \<in> set pre. status (spawnSync os (invocation_of w)) = Some 0) \<and>
           status (spawnSync os (invocation_of ws)) \<noteq> Some 0 \<and>
           runCommandSync os (hd ws) (tl ws) = Inl e \<and> (\<exists>m. e = Error m) \<and>
           returned (getPrinters os this) = Inl e \<and>
           calls (getPrinters os this) = map invocation_of (pre @ [ws])"
proof -
  from assms(2) have "\<exists>ws \<in> set (map snd lpstat_commands). isl (runCommandSync os (hd ws) (tl ws))"
    by (simp only: runCommandSync_status)
  from run_each_first_failure [OF this] obtain pre ws post e where
    h: "map snd lpstat_commands = pre @ ws # post"
       "\<forall>w \<in> set pre. \<not> isl (runCommandSync os (hd w) (tl w))"
       "runCommandSync os (hd ws) (tl ws) = Inl e"
       "run_each os (map snd lpstat_commands) = (Inl e, map invocation_of (pre @ [ws]))"
    by blast
  from h(2) have p: "\<forall>w \<in> set pre. status (spawnSync os (invocation_of w)) = Some 0"
    by (simp add: runCommandSync_status)
  have f: "status (spawnSync os (invocation_of ws)) \<noteq> Some 0"
    using runCommandSync_status [of os ws] h(3) by simp
  from runCommandSync_Inl [OF h(3)] have m: "\<exists>m. e = Error m" .
  from h(4) assms(1) have r: "returned (getPrinters os this) = Inl e"
    "calls (getPrinters os this) = map invocation_of (pre @ [ws])"
    by (simp_all add: getPrinters_def)
  from h(1) p f h(3) m r show ?thesis by blast
qed

lemma getPrinters_refresh_failure:
  assumes "printersLoaded this"
    and "\<exists>ws \<in> set (map snd lpstat_commands). rejecting (spawn os (invocation_of ws))"
  shows "returned (getPrinters os this) = Inr (printers this) \<and>
         directory (getPrinters os this) = this \<and>
         (\<exists>ws \<in> set (map snd lpstat_commands). \<exists>e.
            rejecting (spawn os (invocation_of ws)) \<and> (\<exists>m. e = Message m) \<and>
            runCommand os (hd ws) (tl ws) = Rejected e \<and>
            promise_all (refresh (getPrinters os this)) = Rejected e) \<and>
         (\<forall>d. refresh_done (refresh (getPrinters os this)) d = d)"
proof -
  let ?ps = "refresh (getPrinters os this)"
  from assms(2) obtain ws0 where ws0: "ws0 \<in> set (map snd lpstat_commands)"
    "rejecting (spawn os (invocation_of ws0))" by blast
  from child_promise_rejecting [OF ws0(2)] obtain e0 where
    "runCommand os (hd ws0) (tl ws0) = Rejected e0"
    by (auto simp: runCommand_child)
  with ws0(1) have "Rejected e0 \<in> set ?ps"
    unfolding refresh_mem [OF assms(1)] by metis
  then have "\<exists>e. Rejected e \<in> set ?ps" by blast
  from promise_all_rejected [OF this] obtain e where
    e: "promise_all ?ps = Rejected e" "Rejected e \<in> set ?ps" by blast
  from e(2) obtain ws where ws: "ws \<in> set (map snd lpstat_commands)"
    "runCommand os (hd ws) (tl ws) = Rejected e"
    unfolding refresh_mem [OF assms(1)] by metis
  from ws(2) child_promise_Rejected [of "hd ws" "tl ws" "spawn os (invocation_of ws)" e]
  have "rejecting (spawn os (invocation_of ws))" "\<exists>m. e = Message m"
    by (simp_all add: runCommand_child)
  with ws e(1) have "\<exists>ws \<in> set (map snd lpstat_commands). \<exists>e.
            rejecting (spawn os (invocation_of ws)) \<and> (\<exists>m. e = Message m) \<and>
            runCommand os (hd ws) (tl ws) = Rejected e \<and>
            promise_all ?ps = Rejected e"
    by blast
  moreover from e(1) have "\<forall>d. refresh_done ?ps d = d"
    by (simp add: refresh_done_def)
  moreover from assms(1) have "returned (getPrinters os this) = Inr (printers this)"
    "directory (getPrinters os this) = this"
    by (simp_all add: getPrinters_def)
  ultimately show ?thesis by blast
qed

text \<open>Whatever the failure of a query of a refresh is, the promises never all resolve,
  so no list is stored. When the commands cannot be started, the promise of the snapshot
  is not rejected either: it stays pending.\<close>

lemma getPrinters_refresh_never_stored:
  assumes "printersLoaded this"
    and "\<exists>ws \<in> set (map snd lpstat_commands). failed (spawn os (invocation_of ws))"
  shows "(\<forall>rs. promise_all (refresh (getPrinters os this)) \<noteq> Resolved rs) \<and>
         (\<forall>d. refresh_done (refresh (getPrinters os this)) d = d)"
proof -
  let ?ps = "refresh (getPrinters os this)"
  from assms(2) obtain ws where ws: "ws \<in> set (map snd lpstat_commands)"
    "failed (spawn os (invocation_of ws))" by blast
  from ws(1) have m: "runCommand os (hd ws) (tl ws) \<in> set ?ps"
    unfolding refresh_mem [OF assms(1)] by blast
  have n: "promise_all ?ps \<noteq> Resolved rs" for rs
  proof
    assume "promise_all ?ps = Resolved rs"
    from promise_all_Resolved_all [OF this m] obtain v where
      "runCommand os (hd ws) (tl ws) = Resolved v" by blast
    with child_promise_failed [OF ws(2)] show False
      by (simp add: runCommand_child)
  qed
  have "refresh_done ?ps d = d" for d
  proof (cases "promise_all ?ps")
    case (Resolved rs)
    with n [of rs] show ?thesis by simp
  qed (simp_all add: refresh_done_def)
  with n show ?thesis by blast
qed

lemma getPrinters_refresh_pending:
  assumes "printersLoaded this" and "\<And>i. spawn os i = ErrorEvent (err i)"
  shows "promise_all (refresh (getPrinters os this)) = Pending"
  using assms
  by (simp add: refresh_promises lpstat_commands_def runCommand_child child_promise_def)

text \<open>
  Claim C6, as amended: when one of the five status queries fails, the snapshot fails
  as a whole with the error of the runner for a failing query, as it is and not held in
  an error of another class, no list is built from the responses there are, and the list
  and the loaded flag of the directory stay as they were. On the first load a query
  fails when it ends with a status other than 0: \<^verbatim>\<open>getPrinters\<close> runs the queries
  up to the first that fails and throws its \<^verbatim>\<open>Error\<close>. On a refresh a query fails
  when its child closes with an exit code other than 0 or \<^verbatim>\<open>spawn\<close> throws:
  \<^verbatim>\<open>getPrinters\<close> has returned the list it holds, \<^verbatim>\<open>Promise.all\<close> is
  rejected with the message of a failing query, and the function that would store the
  new list does not run, whatever the directory is by then.
\<close>

theorem snapshot_failure_keeps_directory:
  "(\<not> printersLoaded this \<and>
    (\<exists>ws \<in> set (map snd lpstat_commands). status (spawnSync os (invocation_of ws)) \<noteq> Some 0) \<longrightarrow>
      (\<exists>pre ws post e. map snd lpstat_commands = pre @ ws # post \<and>
          (\<forall>w \<in> set pre. status (spawnSync os (invocation_of w)) = Some 0) \<and>
          status (spawnSync os (invocation_of ws)) \<noteq> Some 0 \<and>
          runCommandSync os (hd ws) (tl ws) = Inl e \<and> (\<exists>m. e = Error m) \<and>
          returned (getPrinters os this) = Inl e \<and>
          calls (getPrinters os this) = map invocation_of (pre @ [ws])) \<and>
      directory (getPrinters os this) = this) \<and>
   (printersLoaded this \<and>
    (\<exists>ws \<in> set (map snd lpstat_commands). rejecting (spawn os (invocation_of ws))) \<longrightarrow>
      returned (getPrinters os this) = Inr (printers this) \<and>
      directory (getPrinters os this) = this \<and>
      (\<exists>ws \<in> set (map snd lpstat_commands). \<exists>e.
          rejecting (spawn os (invocation_of ws)) \<and> (\<exists>m. e = Message m) \<and>
          runCommand os (hd ws) (tl ws) = Rejected e \<and>
          promise_all (refresh (getPrinters os this)) = Rejected e) \<and>
      (\<forall>d. refresh_done (refresh (getPrinters os this)) d = d))"
proof (intro conjI impI)
  assume a: "\<not> printersLoaded this \<and>
    (\<exists>ws \<in> set (map snd lpstat_commands). status (spawnSync os (invocation_of ws)) \<noteq> Some 0)"
  then show "\<exists>pre ws post e. map snd lpstat_commands = pre @ ws # post \<and>
          (\<forall>w \<in> set pre. status (spawnSync os (invocation_of w)) = Some 0) \<and>
          status (spawnSync os (invocation_of ws)) \<noteq> Some 0 \<and>
          runCommandSync os (hd ws) (tl ws) = Inl e \<and> (\<exists>m. e = Error m) \<and>
          returned (getPrinters os this) = Inl e \<and>
          calls (getPrinters os this) = map invocation_of (pre @ [ws])"
    using getPrinters_cold_first_failure [of this os] by blast
  from a show "directory (getPrinters os this) = this"
    using getPrinters_cold_failure [of this os] by blast
next
  assume a: "printersLoaded this \<and>
    (\<exists>ws \<in> set (map snd lpstat_commands). rejecting (spawn os (invocation_of ws)))"
  then have l: "printersLoaded this"
    and r: "\<exists>ws \<in> set (map snd lpstat_commands). rejecting (spawn os (invocation_of ws))"
    by blast+
  note f = getPrinters_refresh_failure [OF l r]
  from f show "returned (getPrinters os this) = Inr (printers this)" by blast
  from f show "directory (getPrinters os this) = this" by blast
  from f show "\<exists>ws \<in> set (map snd lpstat_commands). \<exists>e.
          rejecting (spawn os (invocation_of ws)) \<and> (\<exists>m. e = Message m) \<and>
          runCommand os (hd ws) (tl ws) = Rejected e \<and>
          promise_all (refresh (getPrinters os this)) = Rejected e" by blast
  from f show "\<forall>d. refresh_done (refresh (getPrinters os this)) d = d" by blast
qed

theorem snapshot_failure_keeps_directory_witness:
  "\<not> printersLoaded new_Printer \<and>
   status (spawnSync broken_os (invocation_of [''lpstat'', ''-p''])) \<noteq> Some 0 \<and>
   returned (getPrinters broken_os new_Printer) =
     Inl (Error (e_msg ''lpstat'' [''-p''] @ '' - lpstat: Scheduler is not running.\<newline>'')) \<and>
   calls (getPrinters broken_os new_Printer) =
     [\<lparr> command = ''lpstat'', arguments = [''-p''], input = None \<rparr>] \<and>
   directory (getPrinters broken_os new_Printer) = new_Printer \<and>
   printersLoaded loaded_Printer \<and>
   printers loaded_Printer \<noteq> [] \<and>
   rejecting (spawn broken_os (invocation_of [''lpstat'', ''-p''])) \<and>
   returned (getPrinters broken_os loaded_Printer) = Inr (printers loaded_Printer) \<and>
   directory (getPrinters broken_os loaded_Printer) = loaded_Printer \<and>
   promise_all (refresh (getPrinters broken_os loaded_Printer)) =
     Rejected (Message (e_msg ''lpstat'' [''-p''] @ '' - lp: Error - scheduler not responding.\<newline>'')) \<and>
   refresh_done (refresh (getPrinters broken_os loaded_Printer)) loaded_Printer = loaded_Printer"
proof -
  have s: "status (spawnSync broken_os (invocation_of [''lpstat'', ''-p''])) \<noteq> Some 0"
    by (simp add: broken_os_def)
  have f: "rejecting (spawn broken_os (invocation_of [''lpstat'', ''-p'']))"
    by (simp add: broken_os_def rejecting_def)
  have m: "[''lpstat'', ''-p''] \<in> set (map snd lpstat_commands)"
    by (simp add: lpstat_commands_def)
  have u: "\<not> printersLoaded new_Printer" and l: "printersLoaded loaded_Printer"
    and n: "printers loaded_Printer \<noteq> []"
    by (simp_all add: new_Printer_def loaded_Printer_def)
  have c: "runCommandSync broken_os ''lpstat'' [''-p''] =
          Inl (Error (e_msg ''lpstat'' [''-p''] @ '' - lpstat: Scheduler is not running.\<newline>''))"
    by (simp add: runCommandSync_def broken_os_def truthy_def)
  have r: "returned (getPrinters broken_os new_Printer) =
     Inl (Error (e_msg ''lpstat'' [''-p''] @ '' - lpstat: Scheduler is not running.\<newline>''))"
    "calls (getPrinters broken_os new_Printer) =
     [\<lparr> command = ''lpstat'', arguments = [''-p''], input = None \<rparr>]"
    using c by (simp_all add: getPrinters_def new_Printer_def lpstat_commands_def invocation_of_def)
  have p: "promise_all (refresh (getPrinters broken_os loaded_Printer)) =
     Rejected (Message (e_msg ''lpstat'' [''-p''] @ '' - lp: Error - scheduler not responding.\<newline>''))"
    using l
    by (simp add: refresh_promises lpstat_commands_def runCommand_child child_promise_def
        broken_os_def)
  from s m have "\<exists>ws \<in> set (map snd lpstat_commands).
      status (spawnSync broken_os (invocation_of ws)) \<noteq> Some 0" by blast
  moreover from f m have "\<exists>ws \<in> set (map snd lpstat_commands).
      rejecting (spawn broken_os (invocation_of ws))" by blast
  ultimately show ?thesis
    using snapshot_failure_keeps_directory [of new_Printer broken_os]
      snapshot_failure_keeps_directory [of loaded_Printer broken_os] s f u l n r p
    by simp
qed

text \<open>
  Claim C6 as stated has the snapshot fail with a \<^verbatim>\<open>SnapshotError\<close> that holds the
  error of the runner. On a new directory, when \<^verbatim>\<open>lpstat\<close> exits with the status
  1, what \<^verbatim>\<open>getPrinters\<close> throws is the \<^verbatim>\<open>Error\<close> that
  \<^verbatim>\<open>runCommandSync\<close> threw, itself.
\<close>

theorem snapshot_failure_is_the_runner_error:
  "runCommandSync broken_os ''lpstat'' [''-p''] =
     Inl (Error (e_msg ''lpstat'' [''-p''] @ '' - lpstat: Scheduler is not running.\<newline>'')) \<and>
   returned (getPrinters broken_os new_Printer) =
     Inl (Error (e_msg ''lpstat'' [''-p''] @ '' - lpstat: Scheduler is not running.\<newline>'')) \<and>
   returned (getPrinters broken_os new_Printer) \<noteq>
     Inl (claimed_snapshot_failure
           (Error (e_msg ''lpstat'' [''-p''] @ '' - lpstat: Scheduler is not running.\<newline>'')))"
proof -
  have c: "runCommandSync broken_os ''lpstat'' [''-p''] =
          Inl (Error (e_msg ''lpstat'' [''-p''] @ '' - lpstat: Scheduler is not running.\<newline>''))"
    by (simp add: runCommandSync_def broken_os_def truthy_def)
  then have "returned (getPrinters broken_os new_Printer) =
     Inl (Error (e_msg ''lpstat'' [''-p''] @ '' - lpstat: Scheduler is not running.\<newline>''))"
    by (simp add: getPrinters_def new_Printer_def lpstat_commands_def)
  with c show ?thesis by (simp add: claimed_snapshot_failure_def)
qed

text \<open>On a loaded directory \<^verbatim>\<open>getPrinters\<close> answers with the list it has and
  leaves the directory as it is: the refresh it starts ends later.\<close>

lemma getPrinters_loaded:
  "printersLoaded this \<Longrightarrow>
     returned (getPrinters os this) = Inr (printers this) \<and> directory (getPrinters os this) = this"
  by (simp add: getPrinters_def)

lemma getPrinters_calls: "calls (getPrinters os this) \<noteq> []"
proof (cases "printersLoaded this")
  case True
  then show ?thesis by (simp add: getPrinters_def lpstat_commands_def)
next
  case False
  obtain r cs where r: "run_each os (map snd lpstat_commands) = (r, cs)"
    by (cases "run_each os (map snd lpstat_commands)")
  with run_each_calls [OF commands_not_Nil, of os] have "cs \<noteq> []" by simp
  with False r show ?thesis
    by (cases r) (simp_all add: getPrinters_def Let_def)
qed

lemma getPrinters_Inl:
  assumes "returned (getPrinters os this) = Inl e"
  shows "\<not> printersLoaded this \<and>
         (\<exists>ws \<in> set (map snd lpstat_commands). runCommandSync os (hd ws) (tl ws) = Inl e)"
proof -
  from assms have u: "\<not> printersLoaded this"
    by (auto simp: getPrinters_def)
  obtain r cs where r: "run_each os (map snd lpstat_commands) = (r, cs)"
    by (cases "run_each os (map snd lpstat_commands)")
  with assms u have "r = Inl e"
    by (cases r) (simp_all add: getPrinters_def Let_def)
  with r run_each_Inl [of os "map snd lpstat_commands" e] u show ?thesis by simp
qed

lemma getPrinters_working:
  "getPrinters working_os new_Printer =
     \<lparr> returned = Inr
         [\<lparr> name = Some ''A'', isDefault = True,
             options = [(''printer-is-accepting-jobs'', ''true''),
                        (''device-uri'', ''socket://10.0.0.1'')] \<rparr>,
          \<lparr> name = Some ''A'', isDefault = True,
             options = [(''printer-is-accepting-jobs'', ''true''),
                        (''device-uri'', ''socket://10.0.0.1'')] \<rparr>],
       directory =
         \<lparr> printers =
             [\<lparr> name = Some ''A'', isDefault = True,
                 options = [(''printer-is-accepting-jobs'', ''true''),
                            (''device-uri'', ''socket://10.0.0.1'')] \<rparr>,
              \<lparr> name = Some ''A'', isDefault = True,
                 options = [(''printer-is-accepting-jobs'', ''true''),
                            (''device-uri'', ''socket://10.0.0.1'')] \<rparr>],
           printersLoaded = True, refreshInterval = None \<rparr>,
       calls =
         [\<lparr> command = ''lpstat'', arguments = [''-p''], input = None \<rparr>,
          \<lparr> command = ''lpstat'', arguments = [''-a''], input = None \<rparr>,
          \<lparr> command = ''lpstat'', arguments = [''-s''], input = None \<rparr>,
          \<lparr> command = ''lpstat'', arguments = [''-d''], input = None \<rparr>,
          \<lparr> command = ''lpstat'', arguments = [''-l'', ''-p''], input = None \<rparr>],
       refresh = [] \<rparr>"
  by code_simp

text \<open>
  Claim C8, as amended: on a directory that is not loaded, or that has no timer,
  \<^verbatim>\<open>getPrinter\<close> first calls \<^verbatim>\<open>getPrinters\<close>, which runs at least one
  process. Unless that call throws, which it does exactly when the directory is not
  loaded and a status query fails, \<^verbatim>\<open>getPrinter\<close> then answers with the first
  record of that name in the list the directory has after the call, and with no record
  (and no exception) when no record has the name. When the call throws,
  \<^verbatim>\<open>getPrinter\<close> throws the same error.
\<close>

theorem getPrinter_loads_first:
  assumes "\<not> printersLoaded this \<or> refreshInterval this = None"
  shows "calls_made (getPrinter os this n) = calls (getPrinters os this) \<and>
         calls_made (getPrinter os this n) \<noteq> [] \<and>
         directory_after (getPrinter os this n) = directory (getPrinters os this) \<and>
         (case returned (getPrinters os this) of
            Inl e \<Rightarrow>
              found (getPrinter os this n) = Inl e \<and> \<not> printersLoaded this \<and>
              (\<exists>ws \<in> set (map snd lpstat_commands). runCommandSync os (hd ws) (tl ws) = Inl e)
          | Inr ps \<Rightarrow>
              found (getPrinter os this n) =
                Inr (find (\<lambda>p. name p = Some n) (printers (directory_after (getPrinter os this n)))) \<and>
              (Some n \<notin> name ` set (printers (directory_after (getPrinter os this n))) \<longrightarrow>
                 found (getPrinter os this n) = Inr None))"
proof (cases "returned (getPrinters os this)")
  case (Inl e)
  with assms getPrinters_calls [of os this] getPrinters_Inl [OF Inl] show ?thesis
    by (simp add: getPrinter_def Let_def)
next
  case (Inr ps)
  have "Some n \<notin> name ` set qs \<longrightarrow> find (\<lambda>p. name p = Some n) qs = None" for qs
    by (force simp: find_None_iff)
  with Inr assms getPrinters_calls [of os this] show ?thesis
    by (simp add: getPrinter_def Let_def)
qed

theorem getPrinter_loads_first_witness:
  "\<not> printersLoaded new_Printer \<and>
   calls_made (getPrinter working_os new_Printer ''B'') =
     [\<lparr> command = ''lpstat'', arguments = [''-p''], input = None \<rparr>,
      \<lparr> command = ''lpstat'', arguments = [''-a''], input = None \<rparr>,
      \<lparr> command = ''lpstat'', arguments = [''-s''], input = None \<rparr>,
      \<lparr> command = ''lpstat'', arguments = [''-d''], input = None \<rparr>,
      \<lparr> command = ''lpstat'', arguments = [''-l'', ''-p''], input = None \<rparr>] \<and>
   printersLoaded (directory_after (getPrinter working_os new_Printer ''B'')) \<and>
   found (getPrinter working_os new_Printer ''B'') = Inr None"
  using getPrinter_loads_first [of new_Printer working_os "''B''"]
  by (simp add: getPrinters_working) (simp add: new_Printer_def)

text \<open>
  Claim C8 as stated has \<^verbatim>\<open>getPrinter\<close> return a missing value for every name
  that is not in the list. On a new directory, when \<^verbatim>\<open>lpstat\<close> exits with the
  status 1, the list is empty and \<^verbatim>\<open>getPrinter\<close> throws the error of the first
  query.
\<close>

theorem getPrinter_throws_when_load_fails:
  "\<not> printersLoaded new_Printer \<and>
   printers (directory_after (getPrinter broken_os new_Printer ''A'')) = [] \<and>
   found (getPrinter broken_os new_Printer ''A'') =
     Inl (Error (e_msg ''lpstat'' [''-p''] @ '' - lpstat: Scheduler is not running.\<newline>'')) \<and>
   calls_made (getPrinter broken_os new_Printer ''A'') =
     [\<lparr> command = ''lpstat'', arguments = [''-p''], input = None \<rparr>]"
proof -
  have "runCommandSync broken_os ''lpstat'' [''-p''] =
          Inl (Error (e_msg ''lpstat'' [''-p''] @ '' - lpstat: Scheduler is not running.\<newline>''))"
    by (simp add: runCommandSync_def broken_os_def truthy_def)
  then show ?thesis
    by (simp add: getPrinter_def getPrinters_def new_Printer_def lpstat_commands_def
        invocation_of_def)
qed

end
